theory Spec2Isabelle
  imports Complex_Main
begin


section \<open>Numeric model\<close>

text \<open>
  The scripts compute with Python floats and numpy \<open>float64\<close> arrays.  They are
  idealised here as \<^typ>\<open>real\<close>: rounding is not modelled.  \<open>np.log10\<close> is the
  real logarithm to base 10 on positive arguments.  On a non-positive argument numpy
  yields \<open>-inf\<close> or \<open>nan\<close>, which no real number stands for, so the model is one
  of the runs in which every logarithm has a positive argument: the distance is positive
  behind the guard of \<open>calculate_path_loss\<close>, the constant \<open>4 * pi / c\<close> is, and the
  frequency is taken to be (every loader stores 2.4e9).
\<close>

definition log10 :: "real \<Rightarrow> real" where
  "log10 x = log 10 x"

section \<open>Path-loss estimator (real\_building\_coverage.py)\<close>

text \<open>
  \<^verbatim>\<open>
  def calculate_path_loss(distance, frequency, obstacles=0):
      if distance <= 0:
          return 0
      c = 3e8
      fspl_db = 20 * np.log10(distance) + 20 * np.log10(frequency) + 20 * np.log10(4 * np.pi / c)
      obstacle_loss = obstacles * 10
      total_loss = fspl_db + obstacle_loss
      return total_loss
  \<close>
\<close>

definition calculate_path_loss :: "real \<Rightarrow> real \<Rightarrow> int \<Rightarrow> real" where
  "calculate_path_loss distance frequency obstacles =
     (if distance \<le> 0 then 0
      else
        let c = 300000000;
            fspl_db = 20 * log10 distance + 20 * log10 frequency + 20 * log10 (4 * pi / c);
            obstacle_loss = real_of_int (obstacles * 10);
            total_loss = fspl_db + obstacle_loss
        in total_loss)"

section \<open>Transmitters and errors\<close>

text \<open>
  The exceptions the modelled code can raise: \<open>ValueError\<close> (\<open>float\<close> on a string that
  is no number, an unpacking of the wrong number of values, \<open>np.min\<close> of an empty
  array) and the failure of \<open>np.arange\<close> on a zero step (a \<open>ZeroDivisionError\<close>,
  \<open>ValueError\<close> or \<open>OverflowError\<close>, depending on the operand types and the numpy
  version).
\<close>

datatype error = ValueError | ArangeError

text \<open>
  The two \<open>load_ap_coordinates\<close> functions store every access point as a dictionary.
  Both have the keys \<open>name\<close>, \<open>position\<close> and \<open>frequency\<close>;
  real\_building\_coverage.py adds \<open>power_dbm\<close> and \<open>power_watts\<close>,
  demo\_lightweight.py adds \<open>power\<close>.
\<close>

record ap_core =
  name :: string
  position :: "real \<times> real \<times> real"
  frequency :: real

record ap = ap_core +
  power_dbm :: real
  power_watts :: real

record ap_light = ap_core +
  power :: real

text \<open>The dictionary literals of the two loaders.\<close>

definition new_ap :: "string \<Rightarrow> real \<Rightarrow> real \<Rightarrow> real \<Rightarrow> ap" where
  "new_ap nm x y z =
     \<lparr>name = nm, position = (x, y, z), frequency = 2400000000,
      power_dbm = 20, power_watts = 1 / 10\<rparr>"

definition new_ap_light :: "string \<Rightarrow> real \<Rightarrow> real \<Rightarrow> real \<Rightarrow> ap_light" where
  "new_ap_light nm x y z =
     \<lparr>name = nm, position = (x, y, z), frequency = 2400000000, power = 20\<rparr>"

section \<open>AP loaders\<close>

text \<open>
  A coordinate file is represented by the rows \<open>csv.reader\<close> yields from it, each a
  list of field strings.  The model starts there: a file that \<open>open\<close> or
  \<open>csv.reader\<close> refuses (undecodable bytes, a field over the field size limit) makes
  every loader raise from its \<open>for\<close> statement, outside any \<open>try\<close>, and is not
  represented.  Python's \<open>float\<close> is a parameter \<open>float_of\<close> of the
  loaders: \<open>None\<close> stands for the \<open>ValueError\<close> it raises on a string that is no
  number.  What the functions print is returned as a list of messages.
\<close>

datatype message =
    Loading
  | Ap_Line string real real real
  | Could_Not_Parse nat "string list"
  | Invalid_Row nat "string list"
  | Loaded_Count nat

text \<open>A message is a diagnostic when it is one of the two warnings.\<close>

fun is_warning :: "message \<Rightarrow> bool" where
  "is_warning (Could_Not_Parse n row) = True"
| "is_warning (Invalid_Row n row) = True"
| "is_warning m = False"

text \<open>The row number a warning reports.\<close>

fun warning_row :: "message \<Rightarrow> nat option" where
  "warning_row (Could_Not_Parse n row) = Some n"
| "warning_row (Invalid_Row n row) = Some n"
| "warning_row m = None"

text \<open>\<open>map(float, fields)\<close>, consumed from left to right: the first field that is no
  number raises.\<close>

fun map_float :: "(string \<Rightarrow> real option) \<Rightarrow> string list \<Rightarrow> error + real list" where
  "map_float float_of [] = Inr []"
| "map_float float_of (s # ss) =
     (case float_of s of
        None \<Rightarrow> Inl ValueError
      | Some v \<Rightarrow>
         (case map_float float_of ss of
            Inl e \<Rightarrow> Inl e
          | Inr vs \<Rightarrow> Inr (v # vs)))"

text \<open>\<open>x, y, z = map(float, row[1:4])\<close>: unpacking anything but three values is a
  \<open>ValueError\<close> too.\<close>

definition unpack_xyz ::
  "(string \<Rightarrow> real option) \<Rightarrow> string list \<Rightarrow> error + real \<times> real \<times> real" where
  "unpack_xyz float_of row =
     (case map_float float_of (take 3 (drop 1 row)) of
        Inl e \<Rightarrow> Inl e
      | Inr vs \<Rightarrow>
         (case vs of
            [x, y, z] \<Rightarrow> Inr (x, y, z)
          | _ \<Rightarrow> Inl ValueError))"

subsection \<open>simple\_demo.py: load\_transmitters\<close>

text \<open>
  \<^verbatim>\<open>
  def load_transmitters(filename):
      transmitters = []
      print(f"Loading AP coordinates from: {filename}")
      with open(filename, "r") as file:
          csv_reader = csv.reader(file)
          for row_num, row in enumerate(csv_reader, 1):
              if len(row) >= 4:  # name, x, y, z
                  name = row[0]
                  try:
                      x, y, z = map(float, row[1:4])
                      transmitters.append((name, [x, y, z]))
                      print(f"  {name}: ({x:.1f}, {y:.1f}, {z:.1f})")
                  except ValueError as e:
                      print(f"Warning: Could not parse row {row_num}: {row} - {e}")
              else:
                  print(f"Warning: Invalid row {row_num}: {row}")
      print(f"Loaded {len(transmitters)} AP positions")
      return transmitters
  \<close>
  A transmitter is the pair of a name and a position.  The state of the loop is the
  list \<open>transmitters\<close> and the messages printed so far.  The \<open>except\<close> clause catches
  \<open>ValueError\<close> only; any other exception would leave the loop.
\<close>

type_synonym transmitter = "string \<times> real \<times> real \<times> real"

definition load_transmitters_row ::
  "(string \<Rightarrow> real option) \<Rightarrow> transmitter list \<times> message list \<Rightarrow> nat \<times> string list \<Rightarrow>
     error + transmitter list \<times> message list" where
  "load_transmitters_row float_of st nr =
     (case st of (transmitters, out) \<Rightarrow>
       (case nr of (row_num, row) \<Rightarrow>
         (if length row \<ge> 4 then
            (case unpack_xyz float_of row of
               Inr (x, y, z) \<Rightarrow>
                 Inr (transmitters @ [(row ! 0, x, y, z)], out @ [Ap_Line (row ! 0) x y z])
             | Inl ValueError \<Rightarrow> Inr (transmitters, out @ [Could_Not_Parse row_num row])
             | Inl e \<Rightarrow> Inl e)
          else Inr (transmitters, out @ [Invalid_Row row_num row]))))"

fun load_transmitters_loop ::
  "(string \<Rightarrow> real option) \<Rightarrow> transmitter list \<times> message list \<Rightarrow> (nat \<times> string list) list \<Rightarrow>
     error + transmitter list \<times> message list" where
  "load_transmitters_loop float_of st [] = Inr st"
| "load_transmitters_loop float_of st (nr # rest) =
     (case load_transmitters_row float_of st nr of
        Inl e \<Rightarrow> Inl e
      | Inr st' \<Rightarrow> load_transmitters_loop float_of st' rest)"

definition load_transmitters ::
  "(string \<Rightarrow> real option) \<Rightarrow> string list list \<Rightarrow> error + transmitter list \<times> message list" where
  "load_transmitters float_of rows =
     (case load_transmitters_loop float_of ([], [Loading]) (enumerate 1 rows) of
        Inl e \<Rightarrow> Inl e
      | Inr (transmitters, out) \<Rightarrow>
          Inr (transmitters, out @ [Loaded_Count (length transmitters)]))"

subsection \<open>real\_building\_coverage.py and demo\_lightweight.py: load\_ap\_coordinates\<close>

text \<open>
  \<^verbatim>\<open>
  def load_ap_coordinates(csv_file):
      aps = []
      print(f"Loading AP coordinates from: {csv_file}")
      with open(csv_file, 'r') as f:
          reader = csv.reader(f)
          for row in reader:
              if len(row) >= 4:
                  name, x, y, z = row[0], float(row[1]), float(row[2]), float(row[3])
                  aps.append({'name': name, 'position': ..., 'frequency': 2.4e9, ...})
                  print(f"  {name}: ({x:.1f}, {y:.1f}, {z:.1f})")
      print(f"Loaded {len(aps)} AP transmitters")
      return aps
  \<close>
  The two functions differ in the dictionary they build only, which is the parameter
  \<open>mk\<close> here.  There is no \<open>try\<close>: a \<open>ValueError\<close> of \<open>float\<close> leaves the function.
  A row of fewer than four fields is passed over without a message.
\<close>

definition float_xyz ::
  "(string \<Rightarrow> real option) \<Rightarrow> string list \<Rightarrow> error + real \<times> real \<times> real" where
  "float_xyz float_of row =
     (case float_of (row ! 1) of
        None \<Rightarrow> Inl ValueError
      | Some x \<Rightarrow>
         (case float_of (row ! 2) of
            None \<Rightarrow> Inl ValueError
          | Some y \<Rightarrow>
             (case float_of (row ! 3) of
                None \<Rightarrow> Inl ValueError
              | Some z \<Rightarrow> Inr (x, y, z))))"

fun load_ap_loop ::
  "(string \<Rightarrow> real option) \<Rightarrow> (string \<Rightarrow> real \<Rightarrow> real \<Rightarrow> real \<Rightarrow> 'a) \<Rightarrow> 'a list \<times> message list \<Rightarrow>
     string list list \<Rightarrow> error + 'a list \<times> message list" where
  "load_ap_loop float_of mk st [] = Inr st"
| "load_ap_loop float_of mk st (row # rest) =
     (case st of (acc, out) \<Rightarrow>
       (if length row \<ge> 4 then
          (case float_xyz float_of row of
             Inl e \<Rightarrow> Inl e
           | Inr (x, y, z) \<Rightarrow>
               load_ap_loop float_of mk
                 (acc @ [mk (row ! 0) x y z], out @ [Ap_Line (row ! 0) x y z]) rest)
        else load_ap_loop float_of mk st rest))"

definition load_ap_rows ::
  "(string \<Rightarrow> real option) \<Rightarrow> (string \<Rightarrow> real \<Rightarrow> real \<Rightarrow> real \<Rightarrow> 'a) \<Rightarrow> string list list \<Rightarrow>
     error + 'a list \<times> message list" where
  "load_ap_rows float_of mk rows =
     (case load_ap_loop float_of mk ([], [Loading]) rows of
        Inl e \<Rightarrow> Inl e
      | Inr (acc, out) \<Rightarrow> Inr (acc, out @ [Loaded_Count (length acc)]))"

text \<open>\<open>load_ap_coordinates\<close> of real\_building\_coverage.py.\<close>

definition load_ap_coordinates ::
  "(string \<Rightarrow> real option) \<Rightarrow> string list list \<Rightarrow> error + ap list \<times> message list" where
  "load_ap_coordinates float_of rows = load_ap_rows float_of new_ap rows"

text \<open>\<open>load_ap_coordinates\<close> of demo\_lightweight.py.\<close>

definition load_ap_coordinates_light ::
  "(string \<Rightarrow> real option) \<Rightarrow> string list list \<Rightarrow> error + ap_light list \<times> message list" where
  "load_ap_coordinates_light float_of rows = load_ap_rows float_of new_ap_light rows"

subsection \<open>A float parser for plain decimals\<close>

text \<open>
  To run the loaders on concrete rows, \<open>float_of\<close> is instantiated with a parser of
  the plain decimals \<open>[-]digits[.digits]\<close>, a fragment of what Python's \<open>float\<close>
  accepts (which also takes exponents, surrounding blanks, \<open>inf\<close>, \<open>nan\<close>, ...).
  The general statements below hold for every \<open>float_of\<close>.
\<close>

definition digit_of :: "char \<Rightarrow> nat option" where
  "digit_of ch =
     (if ch = CHR ''0'' then Some 0 else if ch = CHR ''1'' then Some 1
      else if ch = CHR ''2'' then Some 2 else if ch = CHR ''3'' then Some 3
      else if ch = CHR ''4'' then Some 4 else if ch = CHR ''5'' then Some 5
      else if ch = CHR ''6'' then Some 6 else if ch = CHR ''7'' then Some 7
      else if ch = CHR ''8'' then Some 8 else if ch = CHR ''9'' then Some 9
      else None)"

fun digits_value :: "nat \<Rightarrow> string \<Rightarrow> nat option" where
  "digits_value acc [] = Some acc"
| "digits_value acc (ch # rest) =
     (case digit_of ch of
        None \<Rightarrow> None
      | Some v \<Rightarrow> digits_value (10 * acc + v) rest)"

definition unsigned_decimal :: "string \<Rightarrow> real option" where
  "unsigned_decimal s =
     (let whole = takeWhile (\<lambda>ch. ch \<noteq> CHR ''.'') s;
          rest = dropWhile (\<lambda>ch. ch \<noteq> CHR ''.'') s
      in if whole = [] then None
         else
           (case digits_value 0 whole of
              None \<Rightarrow> None
            | Some w \<Rightarrow>
               (if rest = [] then Some (real w)
                else if tl rest = [] then None
                else
                  (case digits_value 0 (tl rest) of
                     None \<Rightarrow> None
                   | Some f \<Rightarrow> Some (real w + real f / 10 ^ length (tl rest))))))"

definition plain_float :: "string \<Rightarrow> real option" where
  "plain_float s =
     (case s of
        [] \<Rightarrow> None
      | ch # rest \<Rightarrow>
         (if ch = CHR ''-'' then map_option uminus (unsigned_decimal rest)
          else unsigned_decimal s))"

section \<open>The main functions and the files they write\<close>

text \<open>
  The file system is a map from paths to files; a path outside its domain does not
  exist (\<open>os.path.exists\<close>).  A file is represented by its rows, as above; of a scene
  file only the existence is read here.  A main function returns its exit code and the
  paths of the files it wrote.  Every existing file is taken to be readable and every
  write to succeed.
\<close>

type_synonym file_system = "string \<rightharpoonup> string list list"

text \<open>\<open>os.path.join(directory, file_name)\<close> for a relative \<open>file_name\<close>.\<close>

definition path_join :: "string \<Rightarrow> string \<Rightarrow> string" where
  "path_join directory file_name =
     (if directory = [] then file_name
      else if last directory = CHR ''/'' then directory @ file_name
      else directory @ ''/'' @ file_name)"

subsection \<open>simple\_demo.py\<close>

text \<open>
  \<^verbatim>\<open>
  def main():
      if len(sys.argv) != 3:
          ...; return 1
      ap_file = sys.argv[1]
      output_dir = sys.argv[2]
      if not os.path.exists(ap_file):
          ...; return 1
      try:
          transmitters = load_transmitters(ap_file)
          if not transmitters:
              print("Error: No valid AP coordinates found in file")
              return 1
      except Exception as e:
          ...; return 1
      report_file = create_summary_report(transmitters, output_dir, ap_file)
      ...
      return 0
  \<close>
  \<open>create_summary_report\<close> writes the one file \<open>ap_summary.txt\<close> in \<open>output_dir\<close>.
\<close>

definition create_summary_report :: "transmitter list \<Rightarrow> string \<Rightarrow> string \<Rightarrow> string list" where
  "create_summary_report transmitters output_dir source_file =
     [path_join output_dir ''ap_summary.txt'']"

definition simple_demo_main ::
  "(string \<Rightarrow> real option) \<Rightarrow> file_system \<Rightarrow> string list \<Rightarrow> int \<times> string list" where
  "simple_demo_main float_of fs argv =
     (if length argv \<noteq> 3 then (1, [])
      else
        (let ap_file = argv ! 1; output_dir = argv ! 2 in
         case fs ap_file of
           None \<Rightarrow> (1, [])
         | Some rows \<Rightarrow>
            (case load_transmitters float_of rows of
               Inl e \<Rightarrow> (1, [])
             | Inr (transmitters, out) \<Rightarrow>
                (if transmitters = [] then (1, [])
                 else (0, create_summary_report transmitters output_dir ap_file)))))"

subsection \<open>demo\_lightweight.py\<close>

text \<open>
  \<^verbatim>\<open>
  def main():
      test_cases = [
          {'ap_file': '../data/2f.csv', 'scene_file': './building_2f.xml',
           'output_dir': './demo_2f_building'},
          {'ap_file': '../data/3f.csv', 'scene_file': './simple_scene.xml',
           'output_dir': './demo_3f_simple'}]
      success_count = 0
      for i, test_case in enumerate(test_cases, 1):
          if not os.path.exists(test_case['ap_file']): ...; continue
          if not os.path.exists(test_case['scene_file']): ...; continue
          try:
              aps = load_ap_coordinates(test_case['ap_file'])
              building_info = analyze_building_scene(test_case['scene_file'])
              results = simulate_coverage_basic(aps, building_info, test_case['output_dir'])
              success_count += 1
          except Exception as e:
              print(f"Test case {i} failed: {e}")
      ...
      return success_count == len(test_cases)

  if __name__ == "__main__":
      success = main()
      exit(0 if success else 1)
  \<close>
  \<open>simulate_coverage_basic\<close> writes \<open>simulation_results.json\<close> and
  \<open>coverage_summary.txt\<close> in the output directory, for any list of access points.
\<close>

definition test_cases :: "(string \<times> string \<times> string) list" where
  "test_cases =
     [(''../data/2f.csv'', ''./building_2f.xml'', ''./demo_2f_building''),
      (''../data/3f.csv'', ''./simple_scene.xml'', ''./demo_3f_simple'')]"

definition simulate_coverage_basic :: "ap_light list \<Rightarrow> string \<Rightarrow> string list" where
  "simulate_coverage_basic txs output_dir =
     [path_join output_dir ''simulation_results.json'',
      path_join output_dir ''coverage_summary.txt'']"

text \<open>One pass of the loop: the state is \<open>success_count\<close> and the files written.\<close>

definition run_test_case ::
  "(string \<Rightarrow> real option) \<Rightarrow> file_system \<Rightarrow> nat \<times> string list \<Rightarrow> string \<times> string \<times> string \<Rightarrow>
     nat \<times> string list" where
  "run_test_case float_of fs st test_case =
     (case st of (success_count, written) \<Rightarrow>
       (case test_case of (ap_file, scene_file, output_dir) \<Rightarrow>
         (case fs ap_file of
            None \<Rightarrow> st
          | Some rows \<Rightarrow>
             (case fs scene_file of
                None \<Rightarrow> st
              | Some scene \<Rightarrow>
                 (case load_ap_coordinates_light float_of rows of
                    Inl e \<Rightarrow> st
                  | Inr (txs, out) \<Rightarrow>
                      (success_count + 1,
                       written @ simulate_coverage_basic txs output_dir))))))"

definition demo_lightweight_main ::
  "(string \<Rightarrow> real option) \<Rightarrow> file_system \<Rightarrow> int \<times> string list" where
  "demo_lightweight_main float_of fs =
     (case foldl (run_test_case float_of fs) (0, []) test_cases of
        (success_count, written) \<Rightarrow>
          (if success_count = length test_cases then 0 else 1, written))"

section \<open>Coverage aggregator (real\_building\_coverage.py)\<close>

subsection \<open>numpy helpers\<close>

type_synonym 'a grid = "'a list list"

text \<open>\<open>np.min(all_positions, axis=0)\<close> and \<open>np.max(all_positions, axis=0)\<close> on an
  array of (x, y) rows; both raise \<open>ValueError\<close> on an array without rows.\<close>

definition np_min_axis0 :: "(real \<times> real) list \<Rightarrow> error + real \<times> real" where
  "np_min_axis0 ps =
     (case ps of
        [] \<Rightarrow> Inl ValueError
      | p # rest \<Rightarrow> Inr (fold (\<lambda>q m. (min (fst q) (fst m), min (snd q) (snd m))) rest p))"

definition np_max_axis0 :: "(real \<times> real) list \<Rightarrow> error + real \<times> real" where
  "np_max_axis0 ps =
     (case ps of
        [] \<Rightarrow> Inl ValueError
      | p # rest \<Rightarrow> Inr (fold (\<lambda>q m. (max (fst q) (fst m), max (snd q) (snd m))) rest p))"

text \<open>\<open>np.arange(start, stop, step)\<close>: \<open>ceil((stop - start) / step)\<close> samples
  \<open>start + k * step\<close> (none when that number is negative).\<close>

definition arange :: "real \<Rightarrow> real \<Rightarrow> real \<Rightarrow> error + real list" where
  "arange start stop step =
     (if step = 0 then Inl ArangeError
      else Inr (map (\<lambda>k. start + real k * step) [0 ..< nat \<lceil>(stop - start) / step\<rceil>]))"

text \<open>\<open>np.meshgrid(x_grid, y_grid)\<close>: both results have one row per element of
  \<open>y_grid\<close> and one column per element of \<open>x_grid\<close>.\<close>

definition meshgrid :: "real list \<Rightarrow> real list \<Rightarrow> real grid \<times> real grid" where
  "meshgrid x_grid y_grid =
     (map (\<lambda>y. x_grid) y_grid, map (\<lambda>y. map (\<lambda>x. y) x_grid) y_grid)"

definition zeros_like :: "'a grid \<Rightarrow> real grid" where
  "zeros_like A = map (map (\<lambda>_. 0)) A"

definition full_like :: "'a grid \<Rightarrow> int \<Rightarrow> int grid" where
  "full_like A v = map (map (\<lambda>_. v)) A"

text \<open>Elementwise operations on arrays of one shape.\<close>

definition ewise2 :: "('a \<Rightarrow> 'b \<Rightarrow> 'c) \<Rightarrow> 'a grid \<Rightarrow> 'b grid \<Rightarrow> 'c grid" where
  "ewise2 f A B = map2 (map2 f) A B"

definition np_where :: "bool grid \<Rightarrow> 'a grid \<Rightarrow> 'a grid \<Rightarrow> 'a grid" where
  "np_where C A B =
     map2 (\<lambda>crow (arow, brow). map2 (\<lambda>c (a, b). if c then a else b) crow (zip arow brow))
       C (zip A B)"

definition np_where_scalar :: "bool grid \<Rightarrow> 'a \<Rightarrow> 'a grid \<Rightarrow> 'a grid" where
  "np_where_scalar C v B = ewise2 (\<lambda>c b. if c then v else b) C B"

subsection \<open>One transmitter at one grid point\<close>

text \<open>
  The body of the loop over the transmitters works on whole arrays; each of its array
  expressions is elementwise, so the value at one grid point \<open>(gx, gy)\<close> is:
  \<^verbatim>\<open>
  ap_x, ap_y, ap_z = ap['position']
  distances = np.sqrt((X - ap_x)**2 + (Y - ap_y)**2 + (ap_z - 1.5)**2)
  obstacles = np.where(distances > 15, 1, 0)
  obstacles = np.where(distances > 30, 2, obstacles)
  path_loss = np.vectorize(calculate_path_loss)(distances, ap['frequency'], obstacles)
  received_power = ap['power_dbm'] - path_loss
  \<close>
\<close>

definition distances :: "ap \<Rightarrow> real \<Rightarrow> real \<Rightarrow> real" where
  "distances a gx gy =
     (case position a of
        (ap_x, ap_y, ap_z) \<Rightarrow> sqrt ((gx - ap_x)\<^sup>2 + (gy - ap_y)\<^sup>2 + (ap_z - 1.5)\<^sup>2))"

definition obstacles_of :: "real \<Rightarrow> int" where
  "obstacles_of d =
     (let obstacles = (if d > 15 then 1 else 0);
          obstacles = (if d > 30 then 2 else obstacles)
      in obstacles)"

definition received_power :: "ap \<Rightarrow> real \<Rightarrow> real \<Rightarrow> real" where
  "received_power a gx gy =
     (let d = distances a gx gy;
          obstacles = obstacles_of d;
          path_loss = calculate_path_loss d (frequency a) obstacles
      in power_dbm a - path_loss)"

subsection \<open>The loop over the transmitters\<close>

text \<open>
  \<^verbatim>\<open>
  for i, ap in enumerate(aps):
      ...
      stronger_signal = received_power > signal_strength
      signal_strength = np.where(stronger_signal, received_power, signal_strength)
      best_ap = np.where(stronger_signal, i, best_ap)
  \<close>
\<close>

definition process_ap ::
  "real grid \<Rightarrow> real grid \<Rightarrow> real grid \<times> int grid \<Rightarrow> nat \<times> ap \<Rightarrow> real grid \<times> int grid" where
  "process_ap gX gY st ia =
     (case st of (signal, best) \<Rightarrow>
       (case ia of (i, a) \<Rightarrow>
         (let received = ewise2 (received_power a) gX gY;
              stronger_signal = ewise2 (\<lambda>r s. r > s) received signal;
              signal' = np_where stronger_signal received signal;
              best' = np_where_scalar stronger_signal (int i) best
          in (signal', best'))))"

text \<open>
  The dictionary \<open>simulate_coverage_grid\<close> returns.  Its entry \<open>coverage_percent\<close>, a
  statistic printed for the user, is left out.
\<close>

record coverage_data =
  X :: "real grid"
  Y :: "real grid"
  signal_strength :: "real grid"
  best_ap :: "int grid"
  aps :: "ap list"
  grid_resolution :: real

text \<open>
  \<^verbatim>\<open>
  def simulate_coverage_grid(aps, building, grid_resolution=0.5):
      # Define coverage area based on AP positions
      all_positions = np.array([ap['position'][:2] for ap in aps])
      x_min, y_min = np.min(all_positions, axis=0) - 20
      x_max, y_max = np.max(all_positions, axis=0) + 20
      # Create grid
      x_grid = np.arange(x_min, x_max, grid_resolution)
      y_grid = np.arange(y_min, y_max, grid_resolution)
      X, Y = np.meshgrid(x_grid, y_grid)
      # Initialize coverage maps
      signal_strength = np.zeros_like(X)
      best_ap = np.full_like(X, -1, dtype=int)
      for i, ap in enumerate(aps): ...
      return {'X': X, 'Y': Y, 'signal_strength': signal_strength, 'best_ap': best_ap,
              'aps': aps, ..., 'grid_resolution': grid_resolution}
  \<close>
  The function is modelled in its three steps; the argument \<open>building\<close> is never read.
  \<open>coverage_area\<close> yields \<open>(x_min, y_min, x_max, y_max)\<close>.  On a grid without
  points (that of a negative resolution) \<open>np.vectorize\<close> raises \<open>ValueError\<close> in the
  first pass of the loop, which there is, since the list of transmitters is not empty
  once \<open>coverage_area\<close> has returned.
\<close>

definition coverage_area :: "ap list \<Rightarrow> error + real \<times> real \<times> real \<times> real" where
  "coverage_area txs =
     (let all_positions = map (\<lambda>a. (fst (position a), fst (snd (position a)))) txs in
      case np_min_axis0 all_positions of
        Inl e \<Rightarrow> Inl e
      | Inr (lo_x, lo_y) \<Rightarrow>
         (case np_max_axis0 all_positions of
            Inl e \<Rightarrow> Inl e
          | Inr (hi_x, hi_y) \<Rightarrow> Inr (lo_x - 20, lo_y - 20, hi_x + 20, hi_y + 20)))"

definition create_grid ::
  "real \<times> real \<times> real \<times> real \<Rightarrow> real \<Rightarrow> error + real grid \<times> real grid" where
  "create_grid area res =
     (case area of
        (x_min, y_min, x_max, y_max) \<Rightarrow>
         (case arange x_min x_max res of
            Inl e \<Rightarrow> Inl e
          | Inr x_grid \<Rightarrow>
             (case arange y_min y_max res of
                Inl e \<Rightarrow> Inl e
              | Inr y_grid \<Rightarrow> Inr (meshgrid x_grid y_grid))))"

definition simulate_coverage_grid :: "ap list \<Rightarrow> 'b \<Rightarrow> real \<Rightarrow> error + coverage_data" where
  "simulate_coverage_grid txs building res =
     (case coverage_area txs of
        Inl e \<Rightarrow> Inl e
      | Inr area \<Rightarrow>
         (case create_grid area res of
            Inl e \<Rightarrow> Inl e
          | Inr (gX, gY) \<Rightarrow>
             (if concat gX = [] then Inl ValueError
              else
                (case foldl (process_ap gX gY)
                        (zeros_like gX, full_like gX (- 1)) (enumerate 0 txs) of
                   (signal, best) \<Rightarrow>
                     Inr \<lparr>X = gX, Y = gY, signal_strength = signal, best_ap = best,
                          aps = txs, grid_resolution = res\<rparr>))))"

subsection \<open>The loop seen from one grid point\<close>

text \<open>
  What one pass of the loop does to the pair (signal, best transmitter) of a single
  grid point, and the whole loop at that point, starting from the initial 0 dBm and
  the sentinel -1.  Lemma \<open>grid_cell\<close> below shows that the arrays of
  \<open>simulate_coverage_grid\<close> hold exactly these values.
\<close>

definition cell_step :: "real \<Rightarrow> real \<Rightarrow> real \<times> int \<Rightarrow> nat \<times> ap \<Rightarrow> real \<times> int" where
  "cell_step gx gy st ia =
     (case st of (s, b) \<Rightarrow>
       (case ia of (i, a) \<Rightarrow>
         (let r = received_power a gx gy
          in (if r > s then r else s, if r > s then int i else b))))"

definition cell_result :: "ap list \<Rightarrow> real \<Rightarrow> real \<Rightarrow> real \<times> int" where
  "cell_result txs gx gy = foldl (cell_step gx gy) (0, - 1) (enumerate 0 txs)"

text \<open>
  Reading one cell of a result: \<open>cov['X'][r][c]\<close>, \<open>cov['Y'][r][c]\<close>,
  \<open>cov['signal_strength'][r][c]\<close> and \<open>cov['best_ap'][r][c]\<close>.  There is no cell
  when the simulation raised or the index is out of range.
\<close>

definition cell_of :: "error + coverage_data \<Rightarrow> nat \<Rightarrow> nat \<Rightarrow> (real \<times> real \<times> real \<times> int) option" where
  "cell_of result r c =
     (case result of
        Inl e \<Rightarrow> None
      | Inr cov \<Rightarrow>
         (if r < length (X cov) \<and> c < length (X cov ! r)
          then Some (X cov ! r ! c, Y cov ! r ! c,
                     signal_strength cov ! r ! c, best_ap cov ! r ! c)
          else None))"

section \<open>The path-loss contract in the words of the specification\<close>

text \<open>
  Section 4.2 of the specification: the received power is the transmit power minus the
  path loss; the path loss is the free-space loss of the Friis relation plus a fixed
  attenuation for every wall; the number of walls is a step function of the distance
  (none up to the near threshold, one above it, two beyond the far threshold).  The
  thresholds and the attenuation are parameters of \<open>spec_received\<close>.
\<close>

text \<open>The distance between the transmitter position and the query point.\<close>

definition spec_distance :: "real \<times> real \<times> real \<Rightarrow> real \<times> real \<times> real \<Rightarrow> real" where
  "spec_distance tx_position query_point =
     (case tx_position of
        (tx, ty, tz) \<Rightarrow>
         (case query_point of
            (qx, qy, qz) \<Rightarrow> sqrt ((qx - tx)\<^sup>2 + (qy - ty)\<^sup>2 + (qz - tz)\<^sup>2)))"

definition spec_walls :: "real \<Rightarrow> real \<Rightarrow> real \<Rightarrow> int" where
  "spec_walls near far d = (if d \<le> near then 0 else if d \<le> far then 1 else 2)"

definition spec_free_space_loss :: "real \<Rightarrow> real \<Rightarrow> real" where
  "spec_free_space_loss d f =
     20 * log10 d + 20 * log10 f + 20 * log10 (4 * pi / 300000000)"

definition spec_received :: "real \<Rightarrow> real \<Rightarrow> real \<Rightarrow> real \<Rightarrow> real \<Rightarrow> real \<Rightarrow> real" where
  "spec_received near far wall_db tx_power f d =
     tx_power - (spec_free_space_loss d f + wall_db * real_of_int (spec_walls near far d))"

section \<open>The loader contract in the words of the specification\<close>

text \<open>
  Section 8 of the specification speaks of valid rows \<open>name,x,y,z\<close> with numeric
  \<open>x\<close>, \<open>y\<close>, \<open>z\<close>, each of which yields exactly one transmitter, and of malformed
  rows (fewer than four fields, or a non-numeric coordinate field).
  \<open>row_transmitter\<close> is the transmitter a row stands for, if it stands for one;
  \<open>transmitters_of\<close> collects them in the order of the rows.
\<close>

definition malformed_row :: "(string \<Rightarrow> real option) \<Rightarrow> string list \<Rightarrow> bool" where
  "malformed_row float_of row \<longleftrightarrow>
     length row < 4 \<or> float_of (row ! 1) = None \<or> float_of (row ! 2) = None \<or>
     float_of (row ! 3) = None"

definition row_transmitter :: "(string \<Rightarrow> real option) \<Rightarrow> string list \<Rightarrow> transmitter option" where
  "row_transmitter float_of row =
     (if malformed_row float_of row then None
      else Some (row ! 0, the (float_of (row ! 1)), the (float_of (row ! 2)),
                 the (float_of (row ! 3))))"

definition transmitters_of :: "(string \<Rightarrow> real option) \<Rightarrow> string list list \<Rightarrow> transmitter list" where
  "transmitters_of float_of rows = List.map_filter (row_transmitter float_of) rows"

text \<open>The message one row adds to the output of \<open>load_transmitters\<close>: the line of
  its transmitter, or the warning with its number.\<close>

definition row_messages :: "(string \<Rightarrow> real option) \<Rightarrow> nat \<times> string list \<Rightarrow> message list" where
  "row_messages float_of nr =
     (case nr of (n, row) \<Rightarrow>
       (case row_transmitter float_of row of
          Some t \<Rightarrow> [Ap_Line (fst t) (fst (snd t)) (fst (snd (snd t))) (snd (snd (snd t)))]
        | None \<Rightarrow> [if 4 \<le> length row then Could_Not_Parse n row else Invalid_Row n row]))"

section \<open>Properties of the path-loss estimator\<close>

lemma calculate_path_loss_pos:
  "0 < d \<Longrightarrow> calculate_path_loss d f k =
     20 * log10 d + 20 * log10 f + 20 * log10 (4 * pi / 300000000) + real_of_int (k * 10)"
  by (simp add: calculate_path_loss_def Let_def)

lemma calculate_path_loss_nonpos: "d \<le> 0 \<Longrightarrow> calculate_path_loss d f k = 0"
  by (simp add: calculate_path_loss_def)

lemma log10_mono: "0 < a \<Longrightarrow> a \<le> b \<Longrightarrow> log10 a \<le> log10 b"
  by (simp add: log10_def)

lemma log10_mult: "0 < a \<Longrightarrow> 0 < b \<Longrightarrow> log10 (a * b) = log10 a + log10 b"
  by (simp add: log10_def log_mult)

lemma log10_neg: "0 < a \<Longrightarrow> a < 1 \<Longrightarrow> log10 a < 0"
  by (simp add: log10_def)

lemma log10_gt1: "10 < a \<Longrightarrow> 1 < log10 a"
  by (simp add: log10_def less_log_iff)

lemma friis_sum:
  assumes "0 < d" "0 < f" "0 < k"
  shows "20 * log10 d + 20 * log10 f + 20 * log10 k = 20 * log10 (d * f * k)"
proof -
  have "log10 (d * f * k) = log10 (d * f) + log10 k"
    using assms by (intro log10_mult) simp_all
  also have "log10 (d * f) = log10 d + log10 f"
    using assms by (intro log10_mult)
  finally show ?thesis by (simp add: algebra_simps)
qed

text \<open>
  At 2.4 GHz the free-space term is negative one millimetre away from the transmitter.
\<close>

lemma path_loss_1mm_negative: "calculate_path_loss (1 / 1000) 2400000000 0 < 0"
proof -
  have "(1 / 1000) * 2400000000 * (4 * pi / 300000000) = 4 * pi / 125" by simp
  moreover have "4 * pi / 125 < 1" using pi_less_4 by simp
  moreover have "0 < 4 * pi / 125" by simp
  ultimately have "log10 ((1 / 1000) * 2400000000 * (4 * pi / 300000000)) < 0"
    by (simp add: log10_neg)
  then show ?thesis
    using friis_sum [of "1 / 1000" 2400000000 "4 * pi / 300000000"]
    by (simp add: calculate_path_loss_pos)
qed

text \<open>
  Claim C6.  At distance exactly 0 the estimator returns the loss 0, whatever the
  frequency and the obstacle count are: the guard \<open>distance <= 0\<close> returns before any
  logarithm or division is evaluated, so the result is the finite number 0.
\<close>

theorem path_loss_at_zero_distance: "calculate_path_loss 0 f k = 0"
  by (simp add: calculate_path_loss_def)

text \<open>
  Claim C5, as stated, fails at \<open>d1 = 0\<close>: the guard returns the loss 0 at distance 0,
  while at 2.4 GHz the loss one millimetre away is negative.
\<close>

theorem path_loss_not_monotone_from_zero:
  "(0::real) \<le> 1 / 1000 \<and>
   \<not> calculate_path_loss 0 2400000000 0 \<le> calculate_path_loss (1 / 1000) 2400000000 0"
  using path_loss_1mm_negative by (simp add: calculate_path_loss_nonpos)

text \<open>
  Claim C5, amended.  For a fixed positive frequency and a fixed obstacle count, the
  loss is monotonically non-decreasing over the positive distances: for all
  \<open>0 < d1 \<le> d2\<close>, \<open>calculate_path_loss d1 f k \<le> calculate_path_loss d2 f k\<close>.
\<close>

theorem path_loss_monotone_positive:
  assumes "0 < d1" and "d1 \<le> d2" and "0 < f"
  shows "calculate_path_loss d1 f k \<le> calculate_path_loss d2 f k"
  using assms by (simp add: calculate_path_loss_pos log10_mono)

theorem path_loss_monotone_positive_witness:
  "(0::real) < 1 \<and> (1::real) \<le> 2 \<and> (0::real) < 2400000000 \<and>
   calculate_path_loss 1 2400000000 0 \<le> calculate_path_loss 2 2400000000 0"
  using path_loss_monotone_positive [of 1 2 2400000000 0] by simp

section \<open>The arrays of the aggregator, cell by cell\<close>

lemma same_shape_row:
  "map length A = map length B \<Longrightarrow> r < length A \<Longrightarrow> length (B ! r) = length (A ! r)"
  by (metis length_map nth_map)

lemma same_shape_len: "map length A = map length B \<Longrightarrow> length B = length A"
  by (metis length_map)

lemma shape_ewise2:
  "map length A = map length B \<Longrightarrow> map length (ewise2 f A B) = map length A"
proof (induction A arbitrary: B)
  case Nil
  then show ?case by (simp add: ewise2_def)
next
  case (Cons a A)
  then obtain b B' where B: "B = b # B'" by (cases B) auto
  with Cons show ?case by (simp add: ewise2_def)
qed

lemma nth_ewise2:
  assumes "map length A = map length B" "r < length A" "c < length (A ! r)"
  shows "ewise2 f A B ! r ! c = f (A ! r ! c) (B ! r ! c)"
proof -
  have lb: "length B = length A" using assms(1) by (rule same_shape_len)
  have lr: "length (B ! r) = length (A ! r)" using assms(1,2) by (rule same_shape_row)
  show ?thesis using assms lb lr by (simp add: ewise2_def)
qed

lemma shape_np_where:
  "map length C = map length A \<Longrightarrow> map length A = map length B \<Longrightarrow>
   map length (np_where C A B) = map length A"
proof (induction C arbitrary: A B)
  case Nil
  then show ?case by (simp add: np_where_def)
next
  case (Cons c C)
  then obtain a A' where A: "A = a # A'" by (cases A) auto
  with Cons obtain b B' where B: "B = b # B'" by (cases B) auto
  from Cons A B show ?case by (simp add: np_where_def)
qed

lemma nth_np_where:
  assumes "map length C = map length A" "map length A = map length B"
    "r < length A" "c < length (A ! r)"
  shows "np_where C A B ! r ! c = (if C ! r ! c then A ! r ! c else B ! r ! c)"
proof -
  have lc: "length C = length A" using assms(1) by (metis length_map)
  have lb: "length B = length A" using assms(2) by (rule same_shape_len)
  have lcr: "length (C ! r) = length (A ! r)"
    using assms(1,3) lc by (metis nth_map)
  have lbr: "length (B ! r) = length (A ! r)" using assms(2,3) by (rule same_shape_row)
  show ?thesis using assms lc lb lcr lbr by (simp add: np_where_def)
qed

lemma process_ap_shape:
  assumes "map length gY = map length gX" "map length S = map length gX"
    "map length B = map length gX" "process_ap gX gY (S, B) (i, a) = (S', B')"
  shows "map length S' = map length gX \<and> map length B' = map length gX"
  using assms
  by (auto simp: process_ap_def Let_def np_where_scalar_def shape_ewise2 shape_np_where)

lemma process_ap_nth:
  assumes "map length gY = map length gX" "map length S = map length gX"
    "map length B = map length gX" "process_ap gX gY (S, B) (i, a) = (S', B')"
    "r < length gX" "c < length (gX ! r)"
  shows "(S' ! r ! c, B' ! r ! c) = cell_step (gX ! r ! c) (gY ! r ! c) (S ! r ! c, B ! r ! c) (i, a)"
proof -
  let ?rc = "ewise2 (received_power a) gX gY"
  let ?st = "ewise2 (\<lambda>r s. r > s) ?rc S"
  have s1: "map length ?rc = map length gX" using assms(1) by (simp add: shape_ewise2)
  have s2: "map length ?st = map length gX" using s1 assms(2) by (simp add: shape_ewise2)
  have n1: "?rc ! r ! c = received_power a (gX ! r ! c) (gY ! r ! c)"
    using assms(1,5,6) by (simp add: nth_ewise2)
  have lr: "r < length ?rc" "c < length (?rc ! r)"
    using s1 assms(5,6) by (metis length_map, metis length_map nth_map)
  have n2: "?st ! r ! c = (?rc ! r ! c > S ! r ! c)"
    using s1 assms(2) lr by (simp add: nth_ewise2)
  have ls: "r < length ?st" "c < length (?st ! r)"
    using s2 assms(5,6) by (metis length_map, metis length_map nth_map)
  have S': "S' = np_where ?st ?rc S" and B': "B' = np_where_scalar ?st (int i) B"
    using assms(4) by (simp_all add: process_ap_def Let_def)
  have n3: "S' ! r ! c = (if ?st ! r ! c then ?rc ! r ! c else S ! r ! c)"
    unfolding S' using s1 s2 assms(2) lr by (simp add: nth_np_where)
  have n4: "B' ! r ! c = (if ?st ! r ! c then int i else B ! r ! c)"
    unfolding B' np_where_scalar_def using s2 assms(3) ls by (simp add: nth_ewise2)
  show ?thesis using n1 n2 n3 n4 by (simp add: cell_step_def Let_def)
qed

lemma foldl_process_ap:
  assumes "map length gY = map length gX"
  shows "map length S = map length gX \<Longrightarrow> map length B = map length gX \<Longrightarrow>
    foldl (process_ap gX gY) (S, B) ias = (S', B') \<Longrightarrow>
    map length S' = map length gX \<and> map length B' = map length gX \<and>
    (\<forall>r c. r < length gX \<longrightarrow> c < length (gX ! r) \<longrightarrow>
       (S' ! r ! c, B' ! r ! c) =
         foldl (cell_step (gX ! r ! c) (gY ! r ! c)) (S ! r ! c, B ! r ! c) ias)"
proof (induction ias arbitrary: S B)
  case Nil
  then show ?case by simp
next
  case (Cons ia ias)
  obtain i a where ia: "ia = (i, a)" by (cases ia)
  obtain S1 B1 where st: "process_ap gX gY (S, B) (i, a) = (S1, B1)"
    by (cases "process_ap gX gY (S, B) (i, a)")
  have sh: "map length S1 = map length gX \<and> map length B1 = map length gX"
    using process_ap_shape [OF assms Cons.prems(1,2) st] .
  have fold: "foldl (process_ap gX gY) (S1, B1) ias = (S', B')"
    using Cons.prems(3) ia st by simp
  have IH: "map length S' = map length gX \<and> map length B' = map length gX \<and>
    (\<forall>r c. r < length gX \<longrightarrow> c < length (gX ! r) \<longrightarrow>
       (S' ! r ! c, B' ! r ! c) =
         foldl (cell_step (gX ! r ! c) (gY ! r ! c)) (S1 ! r ! c, B1 ! r ! c) ias)"
    using Cons.IH [OF _ _ fold] sh by blast
  have step: "\<And>r c. r < length gX \<Longrightarrow> c < length (gX ! r) \<Longrightarrow>
      (S1 ! r ! c, B1 ! r ! c) =
        cell_step (gX ! r ! c) (gY ! r ! c) (S ! r ! c, B ! r ! c) (i, a)"
    using process_ap_nth [OF assms Cons.prems(1,2) st] .
  show ?case using IH step ia by simp
qed

lemma length_arange: "arange start stop step = Inr xs \<Longrightarrow>
   length xs = nat \<lceil>(stop - start) / step\<rceil>"
  by (auto simp: arange_def split: if_splits)

lemma nth_arange: "arange start stop step = Inr xs \<Longrightarrow> k < length xs \<Longrightarrow>
   xs ! k = start + real k * step"
  by (auto simp: arange_def split: if_splits)

lemma arange_Inr: "step \<noteq> 0 \<Longrightarrow> \<exists>xs. arange start stop step = Inr xs"
  by (simp add: arange_def)

lemma create_grid_Inr:
  "res \<noteq> 0 \<Longrightarrow> \<exists>gX gY. create_grid area res = Inr (gX, gY)"
  by (cases area) (simp add: create_grid_def arange_def meshgrid_def)

lemma create_grid_shape:
  assumes "create_grid (x_min, y_min, x_max, y_max) res = Inr (gX, gY)"
  shows "map length gY = map length gX"
    and "length gX = nat \<lceil>(y_max - y_min) / res\<rceil>"
    and "r < length gX \<Longrightarrow> length (gX ! r) = nat \<lceil>(x_max - x_min) / res\<rceil>"
  using assms
  by (auto simp: create_grid_def arange_def meshgrid_def split: if_splits)

lemma create_grid_nth:
  assumes "create_grid (x_min, y_min, x_max, y_max) res = Inr (gX, gY)"
    and "r < length gX" and "c < length (gX ! r)"
  shows "gX ! r ! c = x_min + real c * res" and "gY ! r ! c = y_min + real r * res"
  using assms
  by (auto simp: create_grid_def arange_def meshgrid_def split: if_splits)

lemma coverage_area_Nil: "coverage_area [] = Inl ValueError"
  by (simp add: coverage_area_def np_min_axis0_def)

lemma coverage_area_Cons: "\<exists>area. coverage_area (a # txs) = Inr area"
  by (simp add: coverage_area_def np_min_axis0_def np_max_axis0_def split: prod.splits)

lemma shape_zeros_like: "map length (zeros_like A) = map length A"
  by (simp add: zeros_like_def)

lemma shape_full_like: "map length (full_like A v) = map length A"
  by (simp add: full_like_def)

lemma nth_zeros_like: "r < length A \<Longrightarrow> c < length (A ! r) \<Longrightarrow> zeros_like A ! r ! c = 0"
  by (simp add: zeros_like_def)

lemma nth_full_like: "r < length A \<Longrightarrow> c < length (A ! r) \<Longrightarrow> full_like A v ! r ! c = v"
  by (simp add: full_like_def)

text \<open>Every entry of the returned arrays is the loop's result at that grid point.\<close>

lemma grid_cell:
  assumes sim: "simulate_coverage_grid txs building res = Inr cov"
    and r: "r < length (X cov)" and c: "c < length (X cov ! r)"
  shows "(signal_strength cov ! r ! c, best_ap cov ! r ! c) =
           cell_result txs (X cov ! r ! c) (Y cov ! r ! c)"
proof -
  from sim obtain area gX gY S B where
    area: "coverage_area txs = Inr area"
    and grid: "create_grid area res = Inr (gX, gY)"
    and loop: "foldl (process_ap gX gY) (zeros_like gX, full_like gX (- 1)) (enumerate 0 txs) = (S, B)"
    and cov: "cov = \<lparr>X = gX, Y = gY, signal_strength = S, best_ap = B,
                      aps = txs, grid_resolution = res\<rparr>"
    by (auto simp: simulate_coverage_grid_def split: sum.splits prod.splits if_splits)
  obtain x_min y_min x_max y_max where a: "area = (x_min, y_min, x_max, y_max)"
    by (cases area)
  have sh: "map length gY = map length gX"
    using grid unfolding a by (rule create_grid_shape)
  have r': "r < length gX" and c': "c < length (gX ! r)" using r c cov by simp_all
  have "(S ! r ! c, B ! r ! c) =
      foldl (cell_step (gX ! r ! c) (gY ! r ! c))
        (zeros_like gX ! r ! c, full_like gX (- 1) ! r ! c) (enumerate 0 txs)"
    using foldl_process_ap [OF sh shape_zeros_like shape_full_like loop] r' c' by blast
  then show ?thesis
    using r' c' cov by (simp add: cell_result_def nth_zeros_like nth_full_like)
qed

lemma grid_shape:
  assumes sim: "simulate_coverage_grid txs building res = Inr cov"
  shows "map length (Y cov) = map length (X cov)"
    and "map length (signal_strength cov) = map length (X cov)"
    and "map length (best_ap cov) = map length (X cov)"
proof -
  from sim obtain area gX gY S B where
    area: "coverage_area txs = Inr area"
    and grid: "create_grid area res = Inr (gX, gY)"
    and loop: "foldl (process_ap gX gY) (zeros_like gX, full_like gX (- 1)) (enumerate 0 txs) = (S, B)"
    and cov: "cov = \<lparr>X = gX, Y = gY, signal_strength = S, best_ap = B,
                      aps = txs, grid_resolution = res\<rparr>"
    by (auto simp: simulate_coverage_grid_def split: sum.splits prod.splits if_splits)
  obtain x_min y_min x_max y_max where a: "area = (x_min, y_min, x_max, y_max)"
    by (cases area)
  have sh: "map length gY = map length gX"
    using grid unfolding a by (rule create_grid_shape)
  have "map length S = map length gX \<and> map length B = map length gX"
    using foldl_process_ap [OF sh shape_zeros_like shape_full_like loop] by blast
  then show "map length (Y cov) = map length (X cov)"
    and "map length (signal_strength cov) = map length (X cov)"
    and "map length (best_ap cov) = map length (X cov)"
    using sh cov by simp_all
qed

lemma simulate_Nil: "simulate_coverage_grid [] building res = Inl ValueError"
  by (simp add: simulate_coverage_grid_def coverage_area_Nil)

lemma cell_step_fst:
  "fst (cell_step gx gy (s, b) (i, a)) = max s (received_power a gx gy)"
  by (simp add: cell_step_def Let_def max_def)

lemma cell_loop_fst:
  "fst (foldl (cell_step gx gy) (s, b) (enumerate n txs)) =
     Max (insert s ((\<lambda>a. received_power a gx gy) ` set txs))"
proof (induction txs arbitrary: s b n)
  case Nil
  then show ?case by simp
next
  case (Cons a txs)
  let ?r = "received_power a gx gy"
  let ?R = "(\<lambda>a. received_power a gx gy) ` set txs"
  have fin: "finite ?R" by simp
  obtain s1 b1 where st: "cell_step gx gy (s, b) (n, a) = (s1, b1)"
    by (cases "cell_step gx gy (s, b) (n, a)")
  have s1: "s1 = max s ?r" using cell_step_fst [of gx gy s b n a] st by simp
  have "fst (foldl (cell_step gx gy) (s, b) (enumerate n (a # txs))) =
        Max (insert s1 ?R)"
    using Cons.IH [of s1 b1 "Suc n"] st by simp
  also have "\<dots> = Max (insert s (insert ?r ?R))"
  proof (cases "?R = {}")
    case True
    then show ?thesis by (simp add: s1)
  next
    case False
    then show ?thesis using fin by (simp add: s1 max.assoc)
  qed
  finally show ?case by simp
qed

text \<open>The stored index is the start value or the index of a transmitter that attains
  the stored signal; it is the start value only if the signal is the start value.\<close>

lemma cell_loop_winner:
  "foldl (cell_step gx gy) (s, b) (enumerate n txs) = (s', b') \<Longrightarrow>
     (b' = b \<and> s' = s) \<or>
     (\<exists>k < length txs. b' = int (n + k) \<and> received_power (txs ! k) gx gy = s' \<and> s < s')"
proof (induction txs arbitrary: s b n)
  case Nil
  then show ?case by simp
next
  case (Cons a txs)
  let ?r = "received_power a gx gy"
  show ?case
  proof (cases "?r > s")
    case True
    then have st: "cell_step gx gy (s, b) (n, a) = (?r, int n)"
      by (simp add: cell_step_def Let_def)
    from Cons.prems st
    have "foldl (cell_step gx gy) (?r, int n) (enumerate (Suc n) txs) = (s', b')" by simp
    from Cons.IH [OF this]
    show ?thesis
    proof
      assume "b' = int n \<and> s' = ?r"
      then have "b' = int (n + 0) \<and> received_power ((a # txs) ! 0) gx gy = s' \<and> s < s'"
        using True by simp
      then show ?thesis by (intro disjI2 exI [of _ 0]) simp
    next
      assume "\<exists>k<length txs. b' = int (Suc n + k) \<and> received_power (txs ! k) gx gy = s' \<and> ?r < s'"
      then obtain k where k: "k < length txs" "b' = int (Suc n + k)"
        "received_power (txs ! k) gx gy = s'" "?r < s'" by blast
      then have "Suc k < length (a # txs) \<and> b' = int (n + Suc k) \<and>
          received_power ((a # txs) ! Suc k) gx gy = s' \<and> s < s'"
        using True by simp
      then show ?thesis by blast
    qed
  next
    case False
    then have st: "cell_step gx gy (s, b) (n, a) = (s, b)"
      by (simp add: cell_step_def Let_def)
    from Cons.prems st
    have "foldl (cell_step gx gy) (s, b) (enumerate (Suc n) txs) = (s', b')" by simp
    from Cons.IH [OF this]
    show ?thesis
    proof
      assume "b' = b \<and> s' = s"
      then show ?thesis by simp
    next
      assume "\<exists>k<length txs. b' = int (Suc n + k) \<and> received_power (txs ! k) gx gy = s' \<and> s < s'"
      then obtain k where k: "k < length txs" "b' = int (Suc n + k)"
        "received_power (txs ! k) gx gy = s'" "s < s'" by blast
      then have "Suc k < length (a # txs) \<and> b' = int (n + Suc k) \<and>
          received_power ((a # txs) ! Suc k) gx gy = s' \<and> s < s'"
        by simp
      then show ?thesis by blast
    qed
  qed
qed

lemma cell_result_fst:
  "fst (cell_result txs gx gy) = Max (insert 0 ((\<lambda>a. received_power a gx gy) ` set txs))"
  by (simp add: cell_result_def cell_loop_fst)

lemma cell_result_nonneg: "0 \<le> fst (cell_result txs gx gy)"
  by (simp add: cell_result_fst)

lemma cell_result_winner:
  "(snd (cell_result txs gx gy) = - 1 \<and> fst (cell_result txs gx gy) = 0) \<or>
   (\<exists>k < length txs. snd (cell_result txs gx gy) = int k \<and>
      received_power (txs ! k) gx gy = fst (cell_result txs gx gy) \<and>
      0 < fst (cell_result txs gx gy))"
  using cell_loop_winner [of gx gy 0 "- 1" 0 txs
      "fst (cell_result txs gx gy)" "snd (cell_result txs gx gy)"]
  by (simp add: cell_result_def)

lemma cell_result_sentinel:
  "snd (cell_result txs gx gy) = - 1 \<longleftrightarrow>
     (\<forall>a \<in> set txs. \<not> received_power a gx gy > 0)"
proof
  assume m: "snd (cell_result txs gx gy) = - 1"
  have "fst (cell_result txs gx gy) = 0"
    using cell_result_winner [of txs gx gy] m by auto
  then have "Max (insert 0 ((\<lambda>a. received_power a gx gy) ` set txs)) = 0"
    by (simp add: cell_result_fst)
  then have "\<forall>v \<in> (\<lambda>a. received_power a gx gy) ` set txs. v \<le> 0"
    by (metis List.finite_set Max_ge finite_imageI finite_insert insertCI)
  then show "\<forall>a \<in> set txs. \<not> received_power a gx gy > 0" by auto
next
  assume h: "\<forall>a \<in> set txs. \<not> received_power a gx gy > 0"
  have "Max (insert 0 ((\<lambda>a. received_power a gx gy) ` set txs)) \<le> 0"
    using h by (subst Max_le_iff) auto
  then have z: "fst (cell_result txs gx gy) \<le> 0" by (simp add: cell_result_fst)
  show "snd (cell_result txs gx gy) = - 1"
    using cell_result_winner [of txs gx gy] z by auto
qed

lemma obstacles_of_steps:
  "obstacles_of d = (if d \<le> 15 then 0 else if d \<le> 30 then 1 else 2)"
  by (simp add: obstacles_of_def Let_def)

lemma obstacles_of_nonneg: "0 \<le> obstacles_of d"
  by (simp add: obstacles_of_steps)

lemma distances_nonneg: "0 \<le> distances a gx gy"
  by (simp add: distances_def split: prod.splits)

lemma distances_ge_height:
  "position a = (x, y, z) \<Longrightarrow> \<bar>z - 3 / 2\<bar> \<le> distances a gx gy"
proof -
  assume p: "position a = (x, y, z)"
  have "(z - 3 / 2)\<^sup>2 \<le> (gx - x)\<^sup>2 + (gy - y)\<^sup>2 + (z - 3 / 2)\<^sup>2" by simp
  then have "sqrt ((z - 3 / 2)\<^sup>2) \<le> sqrt ((gx - x)\<^sup>2 + (gy - y)\<^sup>2 + (z - 3 / 2)\<^sup>2)"
    by (rule real_sqrt_le_mono)
  then show ?thesis using p by (simp add: distances_def)
qed

lemma received_power_at_zero_distance:
  "distances a gx gy = 0 \<Longrightarrow> received_power a gx gy = power_dbm a"
  by (simp add: received_power_def Let_def calculate_path_loss_nonpos)

text \<open>An access point as the loaders build it (2.4 GHz, 20 dBm) is received below
  0 dBm at every point one metre or more away.\<close>

lemma received_power_far_negative:
  assumes f: "frequency a = 2400000000" and p: "power_dbm a = 20"
    and d: "1 \<le> distances a gx gy"
  shows "received_power a gx gy < 0"
proof -
  let ?d = "distances a gx gy"
  have dpos: "0 < ?d" using d by simp
  have "10 < 32 * pi" using pi_ge_two by simp
  also have "32 * pi \<le> ?d * 2400000000 * (4 * pi / 300000000)" using d by simp
  finally have "1 < log10 (?d * 2400000000 * (4 * pi / 300000000))" by (rule log10_gt1)
  then have "20 < 20 * log10 ?d + 20 * log10 2400000000 + 20 * log10 (4 * pi / 300000000)"
    using friis_sum [of ?d 2400000000 "4 * pi / 300000000"] dpos by simp
  moreover have "0 \<le> real_of_int (obstacles_of ?d * 10)"
    using obstacles_of_nonneg [of ?d] by simp
  ultimately have "20 < calculate_path_loss ?d 2400000000 (obstacles_of ?d)"
    using dpos by (simp add: calculate_path_loss_pos)
  then show ?thesis using f p by (simp add: received_power_def Let_def)
qed

lemma cell_result_all_nonpos:
  assumes "\<forall>a \<in> set txs. received_power a gx gy \<le> 0"
  shows "cell_result txs gx gy = (0, - 1)"
proof -
  have "snd (cell_result txs gx gy) = - 1"
    using assms by (subst cell_result_sentinel) (auto simp: not_less)
  moreover have "fst (cell_result txs gx gy) = 0"
    using cell_result_winner [of txs gx gy] calculation by auto
  ultimately show ?thesis by (simp add: prod_eq_iff)
qed

text \<open>The cell \<open>(r, c)\<close> of the result, for a row and a column inside the grid.\<close>

lemma cell_of_simulate:
  assumes area: "coverage_area txs = Inr (x_min, y_min, x_max, y_max)"
    and res: "res \<noteq> 0"
    and r: "r < nat \<lceil>(y_max - y_min) / res\<rceil>"
    and c: "c < nat \<lceil>(x_max - x_min) / res\<rceil>"
  shows "cell_of (simulate_coverage_grid txs building res) r c =
     Some (x_min + real c * res, y_min + real r * res,
           fst (cell_result txs (x_min + real c * res) (y_min + real r * res)),
           snd (cell_result txs (x_min + real c * res) (y_min + real r * res)))"
proof -
  obtain gX gY where grid: "create_grid (x_min, y_min, x_max, y_max) res = Inr (gX, gY)"
    using create_grid_Inr [OF res] by blast
  obtain S B where loop:
    "foldl (process_ap gX gY) (zeros_like gX, full_like gX (- 1)) (enumerate 0 txs) = (S, B)"
    by (cases "foldl (process_ap gX gY) (zeros_like gX, full_like gX (- 1)) (enumerate 0 txs)")
  let ?cov = "\<lparr>X = gX, Y = gY, signal_strength = S, best_ap = B,
                aps = txs, grid_resolution = res\<rparr>"
  have lr: "r < length gX" using create_grid_shape(2) [OF grid] r by simp
  have lc: "c < length (gX ! r)" using create_grid_shape(3) [OF grid lr] c by simp
  have "gX ! r \<in> set gX" and "gX ! r \<noteq> []" using lr lc by auto
  then have points: "concat gX \<noteq> []" by auto
  have sim: "simulate_coverage_grid txs building res = Inr ?cov"
    using points by (simp add: simulate_coverage_grid_def area grid loop)
  have gx: "gX ! r ! c = x_min + real c * res" and gy: "gY ! r ! c = y_min + real r * res"
    using create_grid_nth [OF grid lr lc] by simp_all
  have "(S ! r ! c, B ! r ! c) = cell_result txs (gX ! r ! c) (gY ! r ! c)"
    using grid_cell [OF sim, of r c] lr lc by simp
  then have "S ! r ! c = fst (cell_result txs (gX ! r ! c) (gY ! r ! c))"
    and "B ! r ! c = snd (cell_result txs (gX ! r ! c) (gY ! r ! c))"
    by (metis fst_conv, metis snd_conv)
  then show ?thesis using sim lr lc gx gy by (simp add: cell_of_def)
qed

lemma cell_of_SomeD:
  assumes "cell_of (simulate_coverage_grid txs building res) r c = Some (gx, gy, s, w)"
  shows "(s, w) = cell_result txs gx gy"
proof -
  from assms obtain cov where sim: "simulate_coverage_grid txs building res = Inr cov"
    by (cases "simulate_coverage_grid txs building res") (simp_all add: cell_of_def)
  from assms sim have r: "r < length (X cov)" and c: "c < length (X cov ! r)"
    and e: "gx = X cov ! r ! c" "gy = Y cov ! r ! c"
       "s = signal_strength cov ! r ! c" "w = best_ap cov ! r ! c"
    by (auto simp: cell_of_def split: if_splits)
  show ?thesis using grid_cell [OF sim r c] e by simp
qed

section \<open>Properties of the coverage aggregator\<close>

text \<open>
  Claim C10.  The aggregator has no output for an empty transmitter list: the
  bounding-box reduction over zero positions raises \<open>ValueError\<close>, in
  \<open>coverage_area\<close> already, before any grid is built, whatever the building and the
  resolution are.
\<close>

theorem simulate_empty_raises:
  "coverage_area [] = Inl ValueError \<and>
   simulate_coverage_grid [] building res = Inl ValueError"
  by (simp add: simulate_coverage_grid_def coverage_area_Nil)

text \<open>
  Claim C9.  At every cell of a result, the stored signal is the maximum of 0 dBm and
  the received powers of all transmitters at the cell's coordinates, hence never below
  0 dBm, and the stored index is the sentinel -1 exactly when no transmitter is
  received above 0 dBm there.
\<close>

theorem cell_floor_and_sentinel:
  assumes "cell_of (simulate_coverage_grid txs building res) r c = Some (gx, gy, s, w)"
  shows "0 \<le> s \<and>
         s = Max (insert 0 ((\<lambda>a. received_power a gx gy) ` set txs)) \<and>
         (w = - 1 \<longleftrightarrow> (\<forall>a \<in> set txs. \<not> received_power a gx gy > 0))"
proof -
  have sw: "(s, w) = cell_result txs gx gy" using assms by (rule cell_of_SomeD)
  then have s: "s = fst (cell_result txs gx gy)" and w: "w = snd (cell_result txs gx gy)"
    by (metis fst_conv, metis snd_conv)
  show ?thesis
    unfolding s w
    using cell_result_nonneg [of txs gx gy] cell_result_fst [of txs gx gy]
      cell_result_sentinel [of txs gx gy]
    by simp
qed

lemma scenario_area:
  "coverage_area [new_ap ''AP_01'' 5 10 3, new_ap ''AP_02'' 15 20 3] = Inr (- 15, - 10, 35, 40)"
  by (simp add: coverage_area_def np_min_axis0_def np_max_axis0_def new_ap_def)

lemma scenario_far:
  "\<forall>a \<in> set [new_ap ''AP_01'' 5 10 3, new_ap ''AP_02'' 15 20 3].
     received_power a gx gy \<le> 0"
proof -
  have "received_power (new_ap nm x y 3) gx gy \<le> 0" for nm x y
  proof -
    have "\<bar>3 - 3 / 2\<bar> \<le> distances (new_ap nm x y 3) gx gy"
      by (rule distances_ge_height) (simp add: new_ap_def)
    then have "1 \<le> distances (new_ap nm x y 3) gx gy" by simp
    then have "received_power (new_ap nm x y 3) gx gy < 0"
      by (intro received_power_far_negative) (simp_all add: new_ap_def)
    then show ?thesis by simp
  qed
  then show ?thesis by simp
qed

lemma scenario_cell:
  assumes "r < 100" and "c < 100"
  shows "cell_of (simulate_coverage_grid
            [new_ap ''AP_01'' 5 10 3, new_ap ''AP_02'' 15 20 3] () (1 / 2)) r c =
         Some (- 15 + real c * (1 / 2), - 10 + real r * (1 / 2), 0, - 1)"
proof -
  have "cell_of (simulate_coverage_grid
            [new_ap ''AP_01'' 5 10 3, new_ap ''AP_02'' 15 20 3] () (1 / 2)) r c =
     Some (- 15 + real c * (1 / 2), - 10 + real r * (1 / 2),
           fst (cell_result [new_ap ''AP_01'' 5 10 3, new_ap ''AP_02'' 15 20 3]
                  (- 15 + real c * (1 / 2)) (- 10 + real r * (1 / 2))),
           snd (cell_result [new_ap ''AP_01'' 5 10 3, new_ap ''AP_02'' 15 20 3]
                  (- 15 + real c * (1 / 2)) (- 10 + real r * (1 / 2))))"
    using assms by (intro cell_of_simulate [OF scenario_area]) simp_all
  then show ?thesis by (simp add: cell_result_all_nonpos [OF scenario_far])
qed

theorem cell_floor_and_sentinel_witness:
  "cell_of (simulate_coverage_grid
      [new_ap ''AP_01'' 5 10 3, new_ap ''AP_02'' 15 20 3] () (1 / 2)) 40 40 =
     Some (5, 10, 0, - 1) \<and>
   (0::real) \<le> 0 \<and>
   (0::real) = Max (insert 0 ((\<lambda>a. received_power a 5 10) `
                  set [new_ap ''AP_01'' 5 10 3, new_ap ''AP_02'' 15 20 3])) \<and>
   ((- 1::int) = - 1 \<longleftrightarrow>
      (\<forall>a \<in> set [new_ap ''AP_01'' 5 10 3, new_ap ''AP_02'' 15 20 3].
         \<not> received_power a 5 10 > 0))"
proof -
  have c: "cell_of (simulate_coverage_grid
      [new_ap ''AP_01'' 5 10 3, new_ap ''AP_02'' 15 20 3] () (1 / 2)) 40 40 =
     Some (5, 10, 0, - 1)"
    using scenario_cell [of 40 40] by simp
  show ?thesis using c cell_floor_and_sentinel [OF c] by blast
qed

lemma cell_result_ge: "a \<in> set txs \<Longrightarrow> received_power a gx gy \<le> fst (cell_result txs gx gy)"
  by (simp add: cell_result_fst)

lemma cell_result_le:
  assumes "0 \<le> v" and "\<forall>a \<in> set txs. received_power a gx gy \<le> v"
  shows "fst (cell_result txs gx gy) \<le> v"
  unfolding cell_result_fst using assms by (subst Max_le_iff) auto

text \<open>Replacing a transmitter that is not the stored winner of a point by one whose
  received power there does not exceed the stored signal leaves the signal as it is.\<close>

lemma cell_result_replace:
  assumes j: "j < length txs"
    and w: "snd (cell_result txs gx gy) \<noteq> int j"
    and le: "received_power a' gx gy \<le> fst (cell_result txs gx gy)"
  shows "fst (cell_result (txs[j := a']) gx gy) = fst (cell_result txs gx gy)"
proof (rule antisym)
  show "fst (cell_result (txs[j := a']) gx gy) \<le> fst (cell_result txs gx gy)"
  proof (rule cell_result_le)
    show "0 \<le> fst (cell_result txs gx gy)" by (rule cell_result_nonneg)
    show "\<forall>a \<in> set (txs[j := a']). received_power a gx gy \<le> fst (cell_result txs gx gy)"
    proof
      fix a assume "a \<in> set (txs[j := a'])"
      then have "a = a' \<or> a \<in> set txs"
        using set_update_subset_insert [of txs j a'] by auto
      then show "received_power a gx gy \<le> fst (cell_result txs gx gy)"
        using le cell_result_ge by blast
    qed
  qed
next
  from cell_result_winner [of txs gx gy]
  show "fst (cell_result txs gx gy) \<le> fst (cell_result (txs[j := a']) gx gy)"
  proof
    assume "snd (cell_result txs gx gy) = - 1 \<and> fst (cell_result txs gx gy) = 0"
    then show ?thesis using cell_result_nonneg [of "txs[j := a']" gx gy] by simp
  next
    assume "\<exists>k<length txs. snd (cell_result txs gx gy) = int k \<and>
      received_power (txs ! k) gx gy = fst (cell_result txs gx gy) \<and>
      0 < fst (cell_result txs gx gy)"
    then obtain k where k: "k < length txs" "snd (cell_result txs gx gy) = int k"
      "received_power (txs ! k) gx gy = fst (cell_result txs gx gy)" by blast
    from k(2) w have "k \<noteq> j" by auto
    then have "txs[j := a'] ! k = txs ! k" by simp
    moreover have "txs[j := a'] ! k \<in> set (txs[j := a'])" using k(1) by simp
    ultimately have "txs ! k \<in> set (txs[j := a'])" by simp
    then show ?thesis using cell_result_ge [of "txs ! k" "txs[j := a']" gx gy] k(3) by simp
  qed
qed

text \<open>A transmitter under the ceiling (3 m) is received below 0 dBm everywhere.\<close>

lemma ceiling_ap_negative: "received_power (new_ap nm x y 3) gx gy < 0"
proof -
  have "\<bar>3 - 3 / 2\<bar> \<le> distances (new_ap nm x y 3) gx gy"
    by (rule distances_ge_height) (simp add: new_ap_def)
  then have "1 \<le> distances (new_ap nm x y 3) gx gy" by simp
  then show ?thesis
    by (intro received_power_far_negative) (simp_all add: new_ap_def)
qed

text \<open>
  Claim C1 on the scenario of the specification (\<open>AP_01,5.0,10.0,3.0\<close> and
  \<open>AP_02,15.0,20.0,3.0\<close>, resolution 0.5): at the cell at (5, 10), right under
  \<open>AP_01\<close>, the maximum over the transmitters of the received power is negative, but
  the stored signal is the initial 0 dBm and the stored index is the sentinel -1.
\<close>

theorem stored_signal_is_not_the_maximum:
  "cell_of (simulate_coverage_grid
      [new_ap ''AP_01'' 5 10 3, new_ap ''AP_02'' 15 20 3] () (1 / 2)) 40 40 =
     Some (5, 10, 0, - 1) \<and>
   Max ((\<lambda>a. received_power a 5 10) `
          set [new_ap ''AP_01'' 5 10 3, new_ap ''AP_02'' 15 20 3]) < 0"
proof -
  have "cell_of (simulate_coverage_grid
      [new_ap ''AP_01'' 5 10 3, new_ap ''AP_02'' 15 20 3] () (1 / 2)) 40 40 =
     Some (5, 10, 0, - 1)"
    using scenario_cell [of 40 40] by simp
  moreover have "Max ((\<lambda>a. received_power a 5 10) `
          set [new_ap ''AP_01'' 5 10 3, new_ap ''AP_02'' 15 20 3]) < 0"
    using ceiling_ap_negative [of "''AP_01''" 5 10 5 10]
      ceiling_ap_negative [of "''AP_02''" 15 20 5 10] by simp
  ultimately show ?thesis by simp
qed

text \<open>The distance of the code is the distance of the specification between the
  position of the transmitter and the query point at the receiver height of 1.5 m.\<close>

lemma distances_is_spec_distance:
  "distances a gx gy = spec_distance (position a) (gx, gy, 3 / 2)"
  by (simp add: distances_def spec_distance_def power2_commute [of "3 / 2"] split: prod.splits)

text \<open>
  Claim C2.  For every transmitter position, transmit power and positive carrier
  frequency, and every query point \<open>(gx, gy)\<close> of the receiver plane (height 1.5 m) at
  a positive distance \<open>d\<close> from the transmitter position, the received power computed in
  \<open>simulate_coverage_grid\<close> is the transmit power minus the path loss of the
  specification at that distance: the Friis free-space term plus 10 dB for every wall,
  with no wall up to 15 m, one wall above 15 m and two walls beyond 30 m.
\<close>

theorem received_power_is_friis_minus_walls:
  assumes "0 < spec_distance (position a) (gx, gy, 3 / 2)" and "0 < frequency a"
  shows "received_power a gx gy =
           spec_received 15 30 10 (power_dbm a) (frequency a)
             (spec_distance (position a) (gx, gy, 3 / 2))"
proof -
  have d: "0 < distances a gx gy" using assms(1) by (simp add: distances_is_spec_distance)
  have "received_power a gx gy =
      spec_received 15 30 10 (power_dbm a) (frequency a) (distances a gx gy)"
    using d
    by (simp add: received_power_def Let_def calculate_path_loss_pos obstacles_of_steps
        spec_received_def spec_free_space_loss_def spec_walls_def)
  then show ?thesis by (simp add: distances_is_spec_distance)
qed

text \<open>An example: 20 m to the side of a transmitter under the ceiling there is one wall.\<close>

lemma sample_distance_bounds:
  "15 < spec_distance (5, 10, 3) (25, 10, 3 / 2)" "spec_distance (5, 10, 3) (25, 10, 3 / 2) \<le> 30"
proof -
  have e: "spec_distance (5, 10, 3) (25, 10, 3 / 2) = sqrt (1609 / 4)"
    by (simp add: spec_distance_def power2_eq_square)
  have "15 = sqrt (15\<^sup>2)" by simp
  also have "\<dots> < sqrt (1609 / 4)" by (subst real_sqrt_less_iff) simp
  finally show "15 < spec_distance (5, 10, 3) (25, 10, 3 / 2)" using e by simp
  have "sqrt (1609 / 4) \<le> sqrt (30\<^sup>2)" by (subst real_sqrt_le_iff) simp
  then show "spec_distance (5, 10, 3) (25, 10, 3 / 2) \<le> 30" using e by simp
qed

theorem received_power_is_friis_minus_walls_witness:
  "0 < spec_distance (position (new_ap ''AP_01'' 5 10 3)) (25, 10, 3 / 2) \<and>
   0 < frequency (new_ap ''AP_01'' 5 10 3) \<and>
   received_power (new_ap ''AP_01'' 5 10 3) 25 10 =
     spec_received 15 30 10 20 2400000000 (spec_distance (5, 10, 3) (25, 10, 3 / 2)) \<and>
   spec_walls 15 30 (spec_distance (5, 10, 3) (25, 10, 3 / 2)) = 1"
proof -
  have p: "position (new_ap ''AP_01'' 5 10 3) = (5, 10, 3)"
    and f: "frequency (new_ap ''AP_01'' 5 10 3) = 2400000000"
    and w: "power_dbm (new_ap ''AP_01'' 5 10 3) = 20"
    by (simp_all add: new_ap_def)
  have h1: "0 < spec_distance (position (new_ap ''AP_01'' 5 10 3)) (25, 10, 3 / 2)"
    using sample_distance_bounds(1) by (simp add: p)
  have h2: "0 < frequency (new_ap ''AP_01'' 5 10 3)" by (simp add: f)
  have walls: "spec_walls 15 30 (spec_distance (5, 10, 3) (25, 10, 3 / 2)) = 1"
    using sample_distance_bounds by (simp add: spec_walls_def)
  show ?thesis
    using h1 h2 walls received_power_is_friis_minus_walls [OF h1 h2]
    by (simp add: p f w)
qed

lemma log10_pos: "1 < a \<Longrightarrow> 0 < log10 a"
  by (simp add: log10_def)

lemma log10_lt1: "0 < a \<Longrightarrow> a < 10 \<Longrightarrow> log10 a < 1"
  by (simp add: log10_def log_less_iff)

text \<open>
  The transmitters of the examples for C8: \<open>AP_01\<close> hangs 5 cm above the receiver
  plane at (20, 20), \<open>AP_02\<close> is mounted under the ceiling.
\<close>

lemma near_ap_distance: "distances (new_ap nm x y (31 / 20)) x y = 1 / 20"
  by (simp add: distances_def new_ap_def power2_eq_square)

lemma near_ap_received:
  "received_power (new_ap nm x y (31 / 20)) x y = 20 - 20 * log10 (8 * pi / 5)"
proof -
  have "20 * log10 (1 / 20) + 20 * log10 2400000000 + 20 * log10 (4 * pi / 300000000) =
        20 * log10 (1 / 20 * 2400000000 * (4 * pi / 300000000))"
    by (rule friis_sum) simp_all
  also have "1 / 20 * 2400000000 * (4 * pi / 300000000) = 8 * pi / 5" by simp
  finally have loss: "calculate_path_loss (1 / 20) 2400000000 0 = 20 * log10 (8 * pi / 5)"
    by (simp add: calculate_path_loss_pos)
  have f: "frequency (new_ap nm x y (31 / 20)) = 2400000000"
    and p: "power_dbm (new_ap nm x y (31 / 20)) = 20"
    by (simp_all add: new_ap_def)
  show ?thesis
    by (simp add: received_power_def Let_def near_ap_distance obstacles_of_steps f p loss)
qed

lemma near_ap_bounds:
  "0 < received_power (new_ap nm x y (31 / 20)) x y"
  "received_power (new_ap nm x y (31 / 20)) x y < 20"
proof -
  have "8 * pi / 5 < 10" using pi_less_4 by simp
  then have "log10 (8 * pi / 5) < 1" by (intro log10_lt1) simp_all
  then show "0 < received_power (new_ap nm x y (31 / 20)) x y"
    by (simp add: near_ap_received)
  have "1 < 8 * pi / 5" using pi_ge_two by simp
  then have "0 < log10 (8 * pi / 5)" by (rule log10_pos)
  then show "received_power (new_ap nm x y (31 / 20)) x y < 20"
    by (simp add: near_ap_received)
qed

lemma desk_ap_on_cell: "received_power (new_ap nm x y (3 / 2)) x y = 20"
  by (subst received_power_at_zero_distance) (simp_all add: new_ap_def distances_def)

lemma move_ap: "(new_ap nm x y z)\<lparr>position := (x', y', z')\<rparr> = new_ap nm x' y' z'"
  by (simp add: new_ap_def)

lemma area_before:
  "coverage_area [new_ap ''AP_01'' 20 20 (31 / 20), new_ap ''AP_02'' 40 40 3] =
     Inr (0, 0, 60, 60)"
  by (simp add: coverage_area_def np_min_axis0_def np_max_axis0_def new_ap_def)

lemma area_moved_onto:
  "coverage_area [new_ap ''AP_01'' 20 20 (31 / 20), new_ap ''AP_02'' 20 20 (3 / 2)] =
     Inr (0, 0, 40, 40)"
  by (simp add: coverage_area_def np_min_axis0_def np_max_axis0_def new_ap_def)

lemma area_moved_aside:
  "coverage_area [new_ap ''AP_01'' 20 20 (31 / 20), new_ap ''AP_02'' 40 60 3] =
     Inr (0, 0, 60, 80)"
  by (simp add: coverage_area_def np_min_axis0_def np_max_axis0_def new_ap_def)

text \<open>With \<open>AP_02\<close> under the ceiling, \<open>AP_01\<close> wins the point (20, 20).\<close>

lemma near_ap_wins:
  "cell_result [new_ap ''AP_01'' 20 20 (31 / 20), new_ap ''AP_02'' x y 3] 20 20 =
     (received_power (new_ap ''AP_01'' 20 20 (31 / 20)) 20 20, 0)"
  using near_ap_bounds(1) [of "''AP_01''" 20 20] ceiling_ap_negative [of "''AP_02''" x y 20 20]
  by (simp add: cell_result_def cell_step_def Let_def)

lemma desk_ap_wins:
  "cell_result [new_ap ''AP_01'' 20 20 (31 / 20), new_ap ''AP_02'' 20 20 (3 / 2)] 20 20 = (20, 1)"
  using near_ap_bounds [of "''AP_01''" 20 20] desk_ap_on_cell [of "''AP_02''" 20 20]
  by (simp add: cell_result_def cell_step_def Let_def)

lemma cell_before:
  "cell_of (simulate_coverage_grid
      [new_ap ''AP_01'' 20 20 (31 / 20), new_ap ''AP_02'' 40 40 3] () (1 / 2)) 40 40 =
   Some (20, 20, received_power (new_ap ''AP_01'' 20 20 (31 / 20)) 20 20, 0)"
  using cell_of_simulate [OF area_before, of "1 / 2" 40 40 "()"]
  by (simp add: near_ap_wins)

lemma cell_moved_onto:
  "cell_of (simulate_coverage_grid
      [new_ap ''AP_01'' 20 20 (31 / 20), new_ap ''AP_02'' 20 20 (3 / 2)] () (1 / 2)) 40 40 =
   Some (20, 20, 20, 1)"
  using cell_of_simulate [OF area_moved_onto, of "1 / 2" 40 40 "()"]
  by (simp add: desk_ap_wins)

lemma cell_moved_aside:
  "cell_of (simulate_coverage_grid
      [new_ap ''AP_01'' 20 20 (31 / 20), new_ap ''AP_02'' 40 60 3] () (1 / 2)) 40 40 =
   Some (20, 20,
     fst (cell_result [new_ap ''AP_01'' 20 20 (31 / 20), new_ap ''AP_02'' 40 60 3] 20 20),
     snd (cell_result [new_ap ''AP_01'' 20 20 (31 / 20), new_ap ''AP_02'' 40 60 3] 20 20))"
  using cell_of_simulate [OF area_moved_aside, of "1 / 2" 40 40 "()"]
  by simp

text \<open>
  Claim C8, as stated, fails.  At the cell at (20, 20), \<open>AP_01\<close> is the winning
  transmitter (stored index 0) and \<open>AP_02\<close>, under the ceiling at (40, 40, 3), is
  received strictly weaker.  Moving \<open>AP_02\<close>, and nothing else, to (20, 20, 1.5) raises
  the signal stored for the cell from the received power of \<open>AP_01\<close>, which is below
  20 dBm, to 20 dBm.
\<close>

theorem moving_a_weaker_transmitter_changes_the_cell:
  "cell_of (simulate_coverage_grid
      [new_ap ''AP_01'' 20 20 (31 / 20), new_ap ''AP_02'' 40 40 3] () (1 / 2)) 40 40 =
     Some (20, 20, received_power (new_ap ''AP_01'' 20 20 (31 / 20)) 20 20, 0) \<and>
   received_power (new_ap ''AP_02'' 40 40 3) 20 20 <
     received_power (new_ap ''AP_01'' 20 20 (31 / 20)) 20 20 \<and>
   received_power (new_ap ''AP_01'' 20 20 (31 / 20)) 20 20 < 20 \<and>
   cell_of (simulate_coverage_grid
      ([new_ap ''AP_01'' 20 20 (31 / 20), new_ap ''AP_02'' 40 40 3]
         [1 := (new_ap ''AP_02'' 40 40 3)\<lparr>position := (20, 20, 3 / 2)\<rparr>])
      () (1 / 2)) 40 40 =
     Some (20, 20, 20, 1)"
proof -
  have "received_power (new_ap ''AP_02'' 40 40 3) 20 20 <
     received_power (new_ap ''AP_01'' 20 20 (31 / 20)) 20 20"
    using ceiling_ap_negative [of "''AP_02''" 40 40 20 20]
      near_ap_bounds(1) [of "''AP_01''" 20 20] by simp
  then show ?thesis
    using cell_before cell_moved_onto near_ap_bounds(2) [of "''AP_01''" 20 20]
    by (simp add: move_ap)
qed

text \<open>
  Claim C8, amended.  For every grid cell, changing only the position of a transmitter
  that is not the winning transmitter at that cell leaves the signal stored for the
  cell's coordinates unchanged, provided that the received power of the moved
  transmitter at the cell does not exceed the signal stored there before the move.
\<close>

theorem moving_a_non_winner_keeps_the_cell:
  assumes before: "cell_of (simulate_coverage_grid txs building res) r c = Some (gx, gy, s, w)"
    and after: "cell_of (simulate_coverage_grid
                  (txs[j := (txs ! j)\<lparr>position := p\<rparr>]) building res) r' c' =
                Some (gx, gy, s', w')"
    and j: "j < length txs"
    and not_winner: "w \<noteq> int j"
    and still_below: "received_power ((txs ! j)\<lparr>position := p\<rparr>) gx gy \<le> s"
  shows "s' = s"
proof -
  have b: "(s, w) = cell_result txs gx gy" using before by (rule cell_of_SomeD)
  have a: "(s', w') = cell_result (txs[j := (txs ! j)\<lparr>position := p\<rparr>]) gx gy"
    using after by (rule cell_of_SomeD)
  have s: "s = fst (cell_result txs gx gy)" and w: "w = snd (cell_result txs gx gy)"
    using b by (metis fst_conv, metis snd_conv)
  have "fst (cell_result (txs[j := (txs ! j)\<lparr>position := p\<rparr>]) gx gy) =
        fst (cell_result txs gx gy)"
    using j not_winner still_below unfolding s w by (rule cell_result_replace)
  then show ?thesis using a s by (metis fst_conv)
qed

theorem moving_a_non_winner_keeps_the_cell_witness:
  "cell_of (simulate_coverage_grid
      [new_ap ''AP_01'' 20 20 (31 / 20), new_ap ''AP_02'' 40 40 3] () (1 / 2)) 40 40 =
     Some (20, 20, received_power (new_ap ''AP_01'' 20 20 (31 / 20)) 20 20, 0) \<and>
   0 < received_power (new_ap ''AP_01'' 20 20 (31 / 20)) 20 20 \<and>
   cell_of (simulate_coverage_grid
      ([new_ap ''AP_01'' 20 20 (31 / 20), new_ap ''AP_02'' 40 40 3]
         [1 := ([new_ap ''AP_01'' 20 20 (31 / 20), new_ap ''AP_02'' 40 40 3] ! 1)
                 \<lparr>position := (40, 60, 3)\<rparr>])
      () (1 / 2)) 40 40 =
     Some (20, 20,
       fst (cell_result [new_ap ''AP_01'' 20 20 (31 / 20), new_ap ''AP_02'' 40 60 3] 20 20),
       snd (cell_result [new_ap ''AP_01'' 20 20 (31 / 20), new_ap ''AP_02'' 40 60 3] 20 20)) \<and>
   (1::nat) < length [new_ap ''AP_01'' 20 20 (31 / 20), new_ap ''AP_02'' 40 40 3] \<and>
   (0::int) \<noteq> int 1 \<and>
   received_power
     (([new_ap ''AP_01'' 20 20 (31 / 20), new_ap ''AP_02'' 40 40 3] ! 1)
        \<lparr>position := (40, 60, 3)\<rparr>) 20 20 \<le>
     received_power (new_ap ''AP_01'' 20 20 (31 / 20)) 20 20 \<and>
   fst (cell_result [new_ap ''AP_01'' 20 20 (31 / 20), new_ap ''AP_02'' 40 60 3] 20 20) =
     received_power (new_ap ''AP_01'' 20 20 (31 / 20)) 20 20"
proof -
  let ?txs = "[new_ap ''AP_01'' 20 20 (31 / 20), new_ap ''AP_02'' 40 40 3]"
  let ?moved = "[new_ap ''AP_01'' 20 20 (31 / 20), new_ap ''AP_02'' 40 60 3]"
  let ?v = "received_power (new_ap ''AP_01'' 20 20 (31 / 20)) 20 20"
  have h1: "cell_of (simulate_coverage_grid ?txs () (1 / 2)) 40 40 = Some (20, 20, ?v, 0)"
    by (rule cell_before)
  have pos: "0 < ?v" by (rule near_ap_bounds(1))
  have h2: "cell_of (simulate_coverage_grid
      (?txs[1 := (?txs ! 1)\<lparr>position := (40, 60, 3)\<rparr>]) () (1 / 2)) 40 40 =
     Some (20, 20, fst (cell_result ?moved 20 20), snd (cell_result ?moved 20 20))"
    using cell_moved_aside by (simp add: move_ap)
  have h3: "(1::nat) < length ?txs" by simp
  have h4: "(0::int) \<noteq> int 1" by simp
  have h5: "received_power ((?txs ! 1)\<lparr>position := (40, 60, 3)\<rparr>) 20 20 \<le> ?v"
    using ceiling_ap_negative [of "''AP_02''" 40 60 20 20] pos by (simp add: move_ap)
  have "fst (cell_result ?moved 20 20) = ?v"
    using moving_a_non_winner_keeps_the_cell [OF h1 h2 h3 h4 h5] .
  with h1 pos h2 h3 h4 h5 show ?thesis by blast
qed

section \<open>Properties of the loaders and of the main functions\<close>

lemma map_float_error: "map_float float_of ss = Inl e \<Longrightarrow> e = ValueError"
  by (induction ss arbitrary: e) (auto split: option.splits sum.splits)

lemma unpack_xyz_error: "unpack_xyz float_of row = Inl e \<Longrightarrow> e = ValueError"
  by (auto simp: unpack_xyz_def split: sum.splits list.splits dest: map_float_error)

lemma four_fields:
  assumes "4 \<le> length row"
  obtains a b c d rest where "row = a # b # c # d # rest"
  using assms
  by (cases row; cases "tl row"; cases "tl (tl row)"; cases "tl (tl (tl row))") auto

lemma unpack_xyz_eq:
  assumes "4 \<le> length row"
  shows "unpack_xyz float_of row =
     (if malformed_row float_of row then Inl ValueError
      else Inr (the (float_of (row ! 1)), the (float_of (row ! 2)), the (float_of (row ! 3))))"
proof -
  from assms obtain a b c d rest where row: "row = a # b # c # d # rest"
    by (rule four_fields)
  show ?thesis
    by (auto simp: row unpack_xyz_def malformed_row_def split: option.splits)
qed

text \<open>One pass of the loop of \<open>load_transmitters\<close>.\<close>

lemma load_transmitters_row_eq:
  "load_transmitters_row float_of (txs, out) (n, row) =
     Inr (case row_transmitter float_of row of
            Some t \<Rightarrow> (txs @ [t], out @ [Ap_Line (fst t) (fst (snd t)) (fst (snd (snd t))) (snd (snd (snd t)))])
          | None \<Rightarrow>
              (txs, out @ [if 4 \<le> length row then Could_Not_Parse n row else Invalid_Row n row]))"
proof (cases "4 \<le> length row")
  case True
  then show ?thesis
    by (simp add: load_transmitters_row_def unpack_xyz_eq row_transmitter_def)
next
  case False
  then show ?thesis
    by (simp add: load_transmitters_row_def row_transmitter_def malformed_row_def)
qed

lemma load_transmitters_loop_eq:
  "load_transmitters_loop float_of (txs, out) nrs =
     Inr (txs @ transmitters_of float_of (map snd nrs),
          out @ concat (map (row_messages float_of) nrs))"
proof (induction nrs arbitrary: txs out)
  case Nil
  then show ?case by (simp add: transmitters_of_def map_filter_simps)
next
  case (Cons nr nrs)
  obtain n row where nr: "nr = (n, row)" by (cases nr)
  show ?case
  proof (cases "row_transmitter float_of row")
    case None
    then show ?thesis
      using Cons.IH
      by (simp add: nr load_transmitters_row_eq transmitters_of_def map_filter_simps
          row_messages_def)
  next
    case (Some t)
    then show ?thesis
      using Cons.IH
      by (simp add: nr load_transmitters_row_eq transmitters_of_def map_filter_simps
          row_messages_def)
  qed
qed

lemma load_transmitters_eq:
  "load_transmitters float_of rows =
     Inr (transmitters_of float_of rows,
          Loading # concat (map (row_messages float_of) (enumerate 1 rows)) @
          [Loaded_Count (length (transmitters_of float_of rows))])"
  by (simp add: load_transmitters_def load_transmitters_loop_eq)

lemma transmitters_of_append:
  "transmitters_of float_of (xs @ ys) = transmitters_of float_of xs @ transmitters_of float_of ys"
  by (induction xs) (simp_all add: transmitters_of_def map_filter_simps split: option.splits)

lemma transmitters_of_Cons:
  "transmitters_of float_of (row # rows) =
     (case row_transmitter float_of row of None \<Rightarrow> [] | Some t \<Rightarrow> [t]) @
     transmitters_of float_of rows"
  by (simp add: transmitters_of_def map_filter_simps split: option.splits)

lemma row_messages_filter:
  "filter (\<lambda>m. warning_row m = Some k) (row_messages float_of (n, row)) =
     (if n = k \<and> row_transmitter float_of row = None
      then row_messages float_of (n, row) else [])"
  by (simp add: row_messages_def split: option.splits)

lemma no_warning_outside:
  "k < m \<or> m + length rows \<le> k \<Longrightarrow>
   filter (\<lambda>msg. warning_row msg = Some k)
     (concat (map (row_messages float_of) (enumerate m rows))) = []"
proof (induction rows arbitrary: m)
  case Nil
  then show ?case by simp
next
  case (Cons row rows)
  from Cons.prems have "k \<noteq> m" and "k < Suc m \<or> Suc m + length rows \<le> k" by auto
  then show ?case using Cons.IH [of "Suc m"] by (simp add: row_messages_filter)
qed

lemma length_row_messages: "length (row_messages float_of nr) = 1"
  by (cases nr) (simp add: row_messages_def split: option.splits)

lemma malformed_no_transmitter:
  "malformed_row float_of row \<Longrightarrow> row_transmitter float_of row = None"
  by (simp add: row_transmitter_def)

lemma enumerate_split:
  "enumerate m (pre @ row # post) =
     enumerate m pre @ (m + length pre, row) # enumerate (Suc (m + length pre)) post"
  by (simp add: enumerate_append_eq)

text \<open>Exactly one warning carries the number of a malformed row.\<close>

lemma one_warning_for_row:
  assumes "malformed_row float_of row"
  shows "length (filter (\<lambda>msg. warning_row msg = Some (length pre + 1))
           (Loading # concat (map (row_messages float_of) (enumerate 1 (pre @ row # post))) @
            [Loaded_Count n])) = 1"
proof -
  have a: "filter (\<lambda>msg. warning_row msg = Some (length pre + 1))
      (concat (map (row_messages float_of) (enumerate 1 pre))) = []"
    by (rule no_warning_outside) simp
  have b: "filter (\<lambda>msg. warning_row msg = Some (length pre + 1))
      (concat (map (row_messages float_of) (enumerate (Suc (1 + length pre)) post))) = []"
    by (rule no_warning_outside) simp
  have c: "filter (\<lambda>msg. warning_row msg = Some (length pre + 1))
      (row_messages float_of (1 + length pre, row)) = row_messages float_of (1 + length pre, row)"
    using malformed_no_transmitter [OF assms] by (simp add: row_messages_filter)
  show ?thesis
    using a b c by (simp add: enumerate_split length_row_messages)
qed

text \<open>\<open>load_ap_coordinates\<close>: a row of four or more fields with a field that is no
  number raises; otherwise the access points are those of the well-formed rows, and
  nothing is ever reported.\<close>

lemma float_xyz_eq:
  "float_xyz float_of row =
     (if float_of (row ! 1) = None \<or> float_of (row ! 2) = None \<or> float_of (row ! 3) = None
      then Inl ValueError
      else Inr (the (float_of (row ! 1)), the (float_of (row ! 2)), the (float_of (row ! 3))))"
  by (auto simp: float_xyz_def split: option.splits)

lemma load_ap_loop_raises:
  assumes "list_ex (\<lambda>row. 4 \<le> length row \<and> malformed_row float_of row) rows"
  shows "load_ap_loop float_of mk st rows = Inl ValueError"
  using assms
proof (induction rows arbitrary: st)
  case Nil
  then show ?case by simp
next
  case (Cons row rows)
  obtain acc out where st: "st = (acc, out)" by (cases st)
  show ?case
  proof (cases "4 \<le> length row \<and> malformed_row float_of row")
    case True
    then show ?thesis by (auto simp: st float_xyz_eq malformed_row_def)
  next
    case False
    with Cons.prems have "list_ex (\<lambda>row. 4 \<le> length row \<and> malformed_row float_of row) rows"
      by simp
    then show ?thesis using Cons.IH False
      by (auto simp: st float_xyz_eq malformed_row_def)
  qed
qed

lemma load_ap_loop_returns:
  assumes "load_ap_loop float_of mk (acc, out) rows = Inr (acc', out')"
  shows "acc' = acc @ map (\<lambda>(nm, x, y, z). mk nm x y z) (transmitters_of float_of rows) \<and>
         filter is_warning out' = filter is_warning out"
  using assms
proof (induction rows arbitrary: acc out)
  case Nil
  then show ?case by (simp add: transmitters_of_def map_filter_simps)
next
  case (Cons row rows)
  show ?case
  proof (cases "4 \<le> length row")
    case False
    then have "row_transmitter float_of row = None"
      by (simp add: row_transmitter_def malformed_row_def)
    then show ?thesis using Cons False by (simp add: transmitters_of_Cons)
  next
    case True
    show ?thesis
    proof (cases "malformed_row float_of row")
      case m: True
      then have "load_ap_loop float_of mk (acc, out) (row # rows) = Inl ValueError"
        using True by (intro load_ap_loop_raises) simp
      then show ?thesis using Cons.prems by simp
    next
      case m: False
      let ?x = "the (float_of (row ! 1))" and ?y = "the (float_of (row ! 2))"
      let ?z = "the (float_of (row ! 3))"
      have rt: "row_transmitter float_of row = Some (row ! 0, ?x, ?y, ?z)"
        using m by (simp add: row_transmitter_def)
      have fx: "float_xyz float_of row = Inr (?x, ?y, ?z)"
        using m True by (simp add: float_xyz_eq malformed_row_def)
      have "load_ap_loop float_of mk
              (acc @ [mk (row ! 0) ?x ?y ?z], out @ [Ap_Line (row ! 0) ?x ?y ?z]) rows =
            Inr (acc', out')"
        using Cons.prems True fx by simp
      from Cons.IH [OF this] show ?thesis by (simp add: transmitters_of_Cons rt)
    qed
  qed
qed

lemma load_ap_rows_returns:
  assumes "load_ap_rows float_of mk rows = Inr (acc, out)"
  shows "acc = map (\<lambda>(nm, x, y, z). mk nm x y z) (transmitters_of float_of rows) \<and>
         filter is_warning out = []"
proof -
  from assms obtain acc' out' where
    l: "load_ap_loop float_of mk ([], [Loading]) rows = Inr (acc', out')"
    and e: "acc = acc'" "out = out' @ [Loaded_Count (length acc')]"
    by (auto simp: load_ap_rows_def split: sum.splits prod.splits)
  from load_ap_loop_returns [OF l] show ?thesis using e by simp
qed

lemma load_ap_rows_raises:
  "list_ex (\<lambda>row. 4 \<le> length row \<and> malformed_row float_of row) rows \<Longrightarrow>
   load_ap_rows float_of mk rows = Inl ValueError"
  by (simp add: load_ap_rows_def load_ap_loop_raises)

text \<open>Whenever \<open>load_ap_coordinates\<close> of real\_building\_coverage.py returns, its access
  points carry the names and positions \<open>load_transmitters\<close> returns, in the same
  order.\<close>

lemma load_ap_coordinates_agrees:
  assumes "load_ap_coordinates float_of rows = Inr (txs, out)"
  shows "map (\<lambda>a. (name a, position a)) txs = transmitters_of float_of rows"
proof -
  have "txs = map (\<lambda>(nm, x, y, z). new_ap nm x y z) (transmitters_of float_of rows)"
    using assms load_ap_rows_returns [of float_of new_ap rows txs out]
    by (simp add: load_ap_coordinates_def)
  then show ?thesis by (simp add: new_ap_def comp_def case_prod_beta)
qed

lemma plain_float_samples:
  "plain_float ''5.0'' = Some 5" "plain_float ''10.0'' = Some 10"
  "plain_float ''3.0'' = Some 3" "plain_float ''1.0'' = Some 1"
  "plain_float ''2.0'' = Some 2" "plain_float ''15.0'' = Some 15"
  "plain_float ''20.0'' = Some 20" "plain_float ''abc'' = None"
  "plain_float ''-2.5'' = Some (- 5 / 2)"
  by (simp_all add: plain_float_def unsigned_decimal_def digit_of_def)

text \<open>
  Claim C3 on the two loaders it cites.  \<open>load_transmitters\<close> of simple\_demo.py
  keeps the row \<open>,1.0,2.0,3.0\<close>, whose name is empty, as a transmitter and prints no
  warning for it.  \<open>load_ap_coordinates\<close> of demo\_lightweight.py raises
  \<open>ValueError\<close> on the row \<open>AP_02,abc,1.0,2.0\<close>, and passes over the one-field row
  \<open>broken\<close> without any diagnostic.
\<close>

theorem cited_loaders_break_the_row_contract:
  "load_transmitters plain_float [['''', ''1.0'', ''2.0'', ''3.0'']] =
     Inr ([('''', 1, 2, 3)], [Loading, Ap_Line '''' 1 2 3, Loaded_Count 1]) \<and>
   load_ap_coordinates_light plain_float [[''AP_02'', ''abc'', ''1.0'', ''2.0'']] =
     Inl ValueError \<and>
   load_ap_coordinates_light plain_float [[''broken'']] =
     Inr ([], [Loading, Loaded_Count 0])"
  by (simp add: load_transmitters_def load_transmitters_row_def unpack_xyz_def
      load_ap_coordinates_light_def load_ap_rows_def float_xyz_def plain_float_samples)

text \<open>
  What \<open>load_transmitters\<close> does with a row of fewer than 4 fields or with a
  non-numeric coordinate field, once \<open>csv.reader\<close> has yielded the rows: whatever the
  rows before and after it are, the output holds the transmitters of the other rows
  only, and exactly one of the printed warnings carries the number of that row.
\<close>

lemma load_transmitters_skips_malformed_row:
  assumes "length row < 4 \<or> float_of (row ! 1) = None \<or> float_of (row ! 2) = None \<or>
           float_of (row ! 3) = None"
  shows "\<exists>out. load_transmitters float_of (pre @ row # post) =
             Inr (transmitters_of float_of pre @ transmitters_of float_of post, out) \<and>
           length (filter (\<lambda>msg. warning_row msg = Some (length pre + 1)) out) = 1"
proof -
  have m: "malformed_row float_of row" using assms by (simp add: malformed_row_def)
  have "transmitters_of float_of (pre @ row # post) =
        transmitters_of float_of pre @ transmitters_of float_of post"
    by (simp add: transmitters_of_append transmitters_of_Cons malformed_no_transmitter [OF m])
  then show ?thesis
    using one_warning_for_row [OF m, of pre post]
    by (simp add: load_transmitters_eq)
qed

lemma load_transmitters_skips_malformed_row_example:
  "(length [''AP_02'', ''abc'', ''1.0'', ''2.0''] < 4 \<or>
    plain_float ([''AP_02'', ''abc'', ''1.0'', ''2.0''] ! 1) = None \<or>
    plain_float ([''AP_02'', ''abc'', ''1.0'', ''2.0''] ! 2) = None \<or>
    plain_float ([''AP_02'', ''abc'', ''1.0'', ''2.0''] ! 3) = None) \<and>
   (\<exists>out. load_transmitters plain_float
        ([[''AP_01'', ''5.0'', ''10.0'', ''3.0'']] @ [''AP_02'', ''abc'', ''1.0'', ''2.0''] #
         [[''AP_03'', ''15.0'', ''20.0'', ''3.0'']]) =
      Inr (transmitters_of plain_float [[''AP_01'', ''5.0'', ''10.0'', ''3.0'']] @
           transmitters_of plain_float [[''AP_03'', ''15.0'', ''20.0'', ''3.0'']], out) \<and>
      length (filter (\<lambda>msg. warning_row msg =
                Some (length [[''AP_01'', ''5.0'', ''10.0'', ''3.0'']] + 1)) out) = 1)"
proof -
  have h: "length [''AP_02'', ''abc'', ''1.0'', ''2.0''] < 4 \<or>
    plain_float ([''AP_02'', ''abc'', ''1.0'', ''2.0''] ! 1) = None \<or>
    plain_float ([''AP_02'', ''abc'', ''1.0'', ''2.0''] ! 2) = None \<or>
    plain_float ([''AP_02'', ''abc'', ''1.0'', ''2.0''] ! 3) = None"
    by (simp add: plain_float_samples)
  show ?thesis
    using h load_transmitters_skips_malformed_row [OF h,
        of "[[''AP_01'', ''5.0'', ''10.0'', ''3.0'']]" "[[''AP_03'', ''15.0'', ''20.0'', ''3.0'']]"]
    by blast
qed

text \<open>Every row yields one transmitter or one warning.\<close>

lemma row_messages_warning:
  "length (filter is_warning (row_messages float_of (n, row))) =
     (if row_transmitter float_of row = None then 1 else 0)"
  by (simp add: row_messages_def split: option.splits)

lemma warnings_count:
  "length (filter is_warning (concat (map (row_messages float_of) (enumerate m rows)))) +
   length (transmitters_of float_of rows) = length rows"
proof (induction rows arbitrary: m)
  case Nil
  then show ?case by (simp add: transmitters_of_def map_filter_simps)
next
  case (Cons row rows)
  show ?case
    using Cons.IH [of "Suc m"]
    by (simp add: row_messages_warning transmitters_of_Cons split: option.splits)
qed

lemma load_transmitters_counts:
  assumes "load_transmitters float_of rows = Inr (txs, out)"
  shows "length txs + length (filter is_warning out) = length rows"
  using assms warnings_count [of float_of 1 rows]
  by (auto simp: load_transmitters_eq)

lemma load_ap_loop_ok:
  assumes "\<not> list_ex (\<lambda>row. 4 \<le> length row \<and> malformed_row float_of row) rows"
  shows "\<exists>acc' out'. load_ap_loop float_of mk st rows = Inr (acc', out')"
  using assms
proof (induction rows arbitrary: st)
  case Nil
  then show ?case by (cases st) simp
next
  case (Cons row rows)
  obtain acc out where st: "st = (acc, out)" by (cases st)
  from Cons.prems have ok: "\<not> (4 \<le> length row \<and> malformed_row float_of row)"
    and rest: "\<not> list_ex (\<lambda>row. 4 \<le> length row \<and> malformed_row float_of row) rows"
    by simp_all
  show ?case
  proof (cases "4 \<le> length row")
    case True
    with ok have "float_xyz float_of row =
        Inr (the (float_of (row ! 1)), the (float_of (row ! 2)), the (float_of (row ! 3)))"
      by (simp add: float_xyz_eq malformed_row_def)
    then show ?thesis using True Cons.IH [OF rest] by (simp add: st)
  next
    case False
    then show ?thesis using Cons.IH [OF rest] by (simp add: st)
  qed
qed

text \<open>\<open>load_ap_coordinates\<close> returns when no row of four or more fields has a field
  that is no number, and then holds the access points of the well-formed rows.\<close>

lemma load_ap_rows_ok:
  assumes "\<not> list_ex (\<lambda>row. 4 \<le> length row \<and> malformed_row float_of row) rows"
  shows "\<exists>out. load_ap_rows float_of mk rows =
           Inr (map (\<lambda>(nm, x, y, z). mk nm x y z) (transmitters_of float_of rows), out)"
proof -
  obtain acc out where l: "load_ap_loop float_of mk ([], [Loading]) rows = Inr (acc, out)"
    using load_ap_loop_ok [OF assms] by blast
  then have r: "load_ap_rows float_of mk rows = Inr (acc, out @ [Loaded_Count (length acc)])"
    by (simp add: load_ap_rows_def)
  from load_ap_rows_returns [OF r] show ?thesis using r by simp
qed

text \<open>
  Claim C7 on \<open>load_ap_coordinates\<close> of real\_building\_coverage.py.  The file holds
  the valid row \<open>AP_01,5.0,10.0,3.0\<close> and the row \<open>AP_02,abc,1.0,2.0\<close>.  The
  loader raises \<open>ValueError\<close>, so the transmitter of the valid row is in no output;
  \<open>load_transmitters\<close> of simple\_demo.py returns it on the same file.
\<close>

theorem load_ap_coordinates_loses_the_valid_row:
  "load_ap_coordinates plain_float
     [[''AP_01'', ''5.0'', ''10.0'', ''3.0''], [''AP_02'', ''abc'', ''1.0'', ''2.0'']] =
     Inl ValueError \<and>
   load_transmitters plain_float
     [[''AP_01'', ''5.0'', ''10.0'', ''3.0''], [''AP_02'', ''abc'', ''1.0'', ''2.0'']] =
     Inr ([(''AP_01'', 5, 10, 3)],
          [Loading, Ap_Line ''AP_01'' 5 10 3,
           Could_Not_Parse 2 [''AP_02'', ''abc'', ''1.0'', ''2.0''], Loaded_Count 1])"
  by (simp add: load_transmitters_def load_transmitters_row_def unpack_xyz_def
      load_ap_coordinates_def load_ap_rows_def float_xyz_def plain_float_samples)

text \<open>
  What the loaders do with a row with a name and three numeric coordinate fields (and
  any further fields), once \<open>csv.reader\<close> has yielded the rows.  Whatever the rows
  before and after it are, the output of \<open>load_transmitters\<close> holds the transmitter of
  that row after the transmitters of the rows before it and before those of the rows
  after it.  \<open>load_ap_coordinates\<close> of real\_building\_coverage.py does the same with
  its access points only when no other row of four or more fields has a field that is
  no number.
\<close>

lemma valid_row_loaded_in_order:
  assumes "row = nm # sx # sy # sz # extra"
    and "float_of sx = Some x" and "float_of sy = Some y" and "float_of sz = Some z"
  shows "(\<exists>out. load_transmitters float_of (pre @ row # post) =
            Inr (transmitters_of float_of pre @ [(nm, x, y, z)] @
                 transmitters_of float_of post, out)) \<and>
         (\<not> list_ex (\<lambda>r. 4 \<le> length r \<and> malformed_row float_of r) (pre @ post) \<longrightarrow>
           (\<exists>out. load_ap_coordinates float_of (pre @ row # post) =
              Inr (map (\<lambda>(n, px, py, pz). new_ap n px py pz)
                     (transmitters_of float_of pre) @
                   [new_ap nm x y z] @
                   map (\<lambda>(n, px, py, pz). new_ap n px py pz)
                     (transmitters_of float_of post), out)))"
proof -
  have wf: "\<not> malformed_row float_of row"
    using assms by (simp add: malformed_row_def)
  have rt: "row_transmitter float_of row = Some (nm, x, y, z)"
    using assms by (simp add: row_transmitter_def malformed_row_def)
  have tr: "transmitters_of float_of (pre @ row # post) =
      transmitters_of float_of pre @ [(nm, x, y, z)] @ transmitters_of float_of post"
    using rt by (simp add: transmitters_of_append transmitters_of_Cons)
  have first: "\<exists>out. load_transmitters float_of (pre @ row # post) =
            Inr (transmitters_of float_of pre @ [(nm, x, y, z)] @
                 transmitters_of float_of post, out)"
    using tr by (simp add: load_transmitters_eq)
  have second: "\<exists>out. load_ap_coordinates float_of (pre @ row # post) =
              Inr (map (\<lambda>(n, px, py, pz). new_ap n px py pz)
                     (transmitters_of float_of pre) @
                   [new_ap nm x y z] @
                   map (\<lambda>(n, px, py, pz). new_ap n px py pz)
                     (transmitters_of float_of post), out)"
    if ok: "\<not> list_ex (\<lambda>r. 4 \<le> length r \<and> malformed_row float_of r) (pre @ post)"
  proof -
    have "\<not> list_ex (\<lambda>r. 4 \<le> length r \<and> malformed_row float_of r) (pre @ row # post)"
      using ok wf by simp
    from load_ap_rows_ok [OF this, of new_ap]
    show ?thesis
      by (simp add: load_ap_coordinates_def tr)
  qed
  from first second show ?thesis by blast
qed

lemma valid_row_loaded_in_order_example:
  "[''AP_02'', ''15.0'', ''20.0'', ''3.0''] = ''AP_02'' # ''15.0'' # ''20.0'' # ''3.0'' # [] \<and>
   plain_float ''15.0'' = Some 15 \<and> plain_float ''20.0'' = Some 20 \<and>
   plain_float ''3.0'' = Some 3 \<and>
   \<not> list_ex (\<lambda>r. 4 \<le> length r \<and> malformed_row plain_float r)
       ([[''AP_01'', ''5.0'', ''10.0'', ''3.0''], [''broken'']] @
        [[''AP_03'', ''1.0'', ''2.0'', ''3.0'']]) \<and>
   (\<exists>out. load_transmitters plain_float
        ([[''AP_01'', ''5.0'', ''10.0'', ''3.0''], [''broken'']] @
         [''AP_02'', ''15.0'', ''20.0'', ''3.0''] # [[''AP_03'', ''1.0'', ''2.0'', ''3.0'']]) =
      Inr ([(''AP_01'', 5, 10, 3), (''AP_02'', 15, 20, 3), (''AP_03'', 1, 2, 3)], out)) \<and>
   (\<exists>out. load_ap_coordinates plain_float
        ([[''AP_01'', ''5.0'', ''10.0'', ''3.0''], [''broken'']] @
         [''AP_02'', ''15.0'', ''20.0'', ''3.0''] # [[''AP_03'', ''1.0'', ''2.0'', ''3.0'']]) =
      Inr ([new_ap ''AP_01'' 5 10 3, new_ap ''AP_02'' 15 20 3, new_ap ''AP_03'' 1 2 3], out))"
proof -
  have h1: "[''AP_02'', ''15.0'', ''20.0'', ''3.0''] =
      ''AP_02'' # ''15.0'' # ''20.0'' # ''3.0'' # []" by simp
  have h2: "plain_float ''15.0'' = Some 15" and h3: "plain_float ''20.0'' = Some 20"
    and h4: "plain_float ''3.0'' = Some 3" by (simp_all add: plain_float_samples)
  have h5: "\<not> list_ex (\<lambda>r. 4 \<le> length r \<and> malformed_row plain_float r)
       ([[''AP_01'', ''5.0'', ''10.0'', ''3.0''], [''broken'']] @
        [[''AP_03'', ''1.0'', ''2.0'', ''3.0'']])"
    by (simp add: malformed_row_def plain_float_samples)
  have t1: "transmitters_of plain_float [[''AP_01'', ''5.0'', ''10.0'', ''3.0''], [''broken'']] =
      [(''AP_01'', 5, 10, 3)]"
    and t2: "transmitters_of plain_float [[''AP_03'', ''1.0'', ''2.0'', ''3.0'']] =
      [(''AP_03'', 1, 2, 3)]"
    by (simp_all add: transmitters_of_def map_filter_simps row_transmitter_def
        malformed_row_def plain_float_samples)
  show ?thesis
    using h1 h2 h3 h4 h5 valid_row_loaded_in_order [OF h1 h2 h3 h4,
      of "[[''AP_01'', ''5.0'', ''10.0'', ''3.0''], [''broken'']]"
         "[[''AP_03'', ''1.0'', ''2.0'', ''3.0'']]"]
    by (simp add: t1 t2)
qed

lemma transmitters_of_sample:
  "transmitters_of plain_float
     [[''AP_01'', ''5.0'', ''10.0'', ''3.0''], [''broken''], [''AP_02'', ''abc'', ''1.0'', ''2.0''],
      [''AP_03'', ''15.0'', ''20.0'', ''3.0'']] =
   [(''AP_01'', 5, 10, 3), (''AP_03'', 15, 20, 3)]"
  by (simp add: transmitters_of_def map_filter_simps row_transmitter_def malformed_row_def
      plain_float_samples)

text \<open>\<open>main\<close> of simple\_demo.py does what claim C4 asks: with no parseable row it
  returns 1 and writes nothing.\<close>

lemma simple_demo_main_no_transmitters:
  assumes "fs (argv ! 1) = Some rows" and "transmitters_of float_of rows = []"
  shows "simple_demo_main float_of fs argv = (1, [])"
  using assms by (simp add: simple_demo_main_def Let_def load_transmitters_eq)

lemma simple_demo_main_success:
  assumes "length argv = 3" and "fs (argv ! 1) = Some rows"
    and "transmitters_of float_of rows \<noteq> []"
  shows "simple_demo_main float_of fs argv = (0, [path_join (argv ! 2) ''ap_summary.txt''])"
  using assms
  by (simp add: simple_demo_main_def Let_def load_transmitters_eq create_summary_report_def)

lemma simple_demo_main_writes_only_on_success:
  "simple_demo_main float_of fs argv = (code, written) \<Longrightarrow> code = 1 \<Longrightarrow> written = []"
  by (auto simp: simple_demo_main_def Let_def split: if_splits option.splits sum.splits)

text \<open>
  Claim C4 on \<open>main\<close> of demo\_lightweight.py.  Both coordinate files exist and hold
  one comment line each, so no row is parseable and \<open>load_ap_coordinates\<close> returns the
  empty list; both scene files exist.  The run writes the results file and the summary
  of both test cases and ends with exit code 0.
\<close>

theorem demo_lightweight_main_accepts_no_transmitters:
  "transmitters_of plain_float [[''# no access points'']] = [] \<and>
   load_ap_coordinates_light plain_float [[''# no access points'']] =
     Inr ([], [Loading, Loaded_Count 0]) \<and>
   demo_lightweight_main plain_float
     [''../data/2f.csv'' \<mapsto> [[''# no access points'']],
      ''./building_2f.xml'' \<mapsto> [[''<scene/>'']],
      ''../data/3f.csv'' \<mapsto> [[''# no access points'']],
      ''./simple_scene.xml'' \<mapsto> [[''<scene/>'']]] =
     (0, [''./demo_2f_building/simulation_results.json'',
          ''./demo_2f_building/coverage_summary.txt'',
          ''./demo_3f_simple/simulation_results.json'',
          ''./demo_3f_simple/coverage_summary.txt''])"
  by (simp add: transmitters_of_def map_filter_simps row_transmitter_def malformed_row_def
      load_ap_coordinates_light_def load_ap_rows_def demo_lightweight_main_def test_cases_def
      run_test_case_def simulate_coverage_basic_def path_join_def)

end
